theory Spec2Isabelle
  imports Complex_Main "HOL-Library.Multiset" "HOL-Library.List_Lexorder"
begin

unbundle bit_operations_syntax

section \<open>Python values\<close>

text \<open>
  A Python \<^verbatim>\<open>str\<close> is a sequence of Unicode code points and \<^verbatim>\<open>len\<close> counts code
  points, so a string is modelled as a list of code points. Python floats are modelled
  by real numbers with exact arithmetic: comparisons against the thresholds are the
  comparisons of the source, rounding of the last bit is not modelled.
\<close>

type_synonym pystr = "nat list"

text \<open>The exceptions that the code raises or lets through, as values.\<close>

datatype py_error =
  UnicodeEncodeError | IndexError | ZeroDivisionError | ValueError | JSONDecodeError
  | OSError | APIError | FileNotFoundError

definition py :: "string \<Rightarrow> pystr" where
  "py s = map of_char s"

fun starts_with :: "'a list \<Rightarrow> 'a list \<Rightarrow> bool" where
  "starts_with [] t = True"
| "starts_with (p # ps) [] = False"
| "starts_with (p # ps) (c # cs) = (p = c \<and> starts_with ps cs)"

text \<open>\<^verbatim>\<open>pattern in text\<close> on strings: the pattern occurs as a contiguous substring.\<close>

fun py_in :: "'a list \<Rightarrow> 'a list \<Rightarrow> bool" where
  "py_in p [] = (p = [])"
| "py_in p (c # cs) = (starts_with p (c # cs) \<or> py_in p cs)"

text \<open>\<^verbatim>\<open>any(...)\<close> over a list of booleans computed left to right.\<close>

fun py_any :: "('a \<Rightarrow> bool) \<Rightarrow> 'a list \<Rightarrow> bool" where
  "py_any f [] = False"
| "py_any f (x # xs) = (if f x then True else py_any f xs)"

section \<open>Configuration and contexts (src/src/config.py, src/src/context_analyzer.py)\<close>

datatype TranslationModel = GPT_35_TURBO | GPT_4 | GPT_4_TURBO | LOCAL | MOCK

fun model_value :: "TranslationModel \<Rightarrow> pystr" where
  "model_value GPT_35_TURBO = py ''gpt-3.5-turbo''"
| "model_value GPT_4 = py ''gpt-4''"
| "model_value GPT_4_TURBO = py ''gpt-4-turbo-preview''"
| "model_value LOCAL = py ''local''"
| "model_value MOCK = py ''mock''"

text \<open>
  The fields of the dataclass \<^verbatim>\<open>SegmentContext\<close> that the translation pipeline reads.
\<close>

record SegmentContext =
  index :: int
  ctx_text :: pystr
  is_question :: bool
  is_metaphor :: bool
  key_terms :: "pystr list"

section \<open>Complexity routing (src/src/translation\_pipeline.py)\<close>

text \<open>The four Thai markers of \<^verbatim>\<open>complex_patterns\<close>, as code points.\<close>

definition complex_patterns :: "pystr list" where
  "complex_patterns =
    [[3648, 3627, 3617, 3639, 3629, 3609, 3585, 3633, 3610],
     [3629, 3640, 3611, 3617, 3634],
     [3626, 3617, 3617, 3605, 3636, 3623, 3656, 3634],
     [3618, 3585, 3605, 3633, 3623, 3629, 3618, 3656, 3634, 3591]]"

text \<open>
  \<^verbatim>\<open>_calculate_complexity\<close>: the score starts at 0 and is updated statement by
  statement; an instance of the dataclass is always truthy, so
  \<^verbatim>\<open>if segment_context:\<close> tests for \<^verbatim>\<open>None\<close>.
\<close>

definition calculate_complexity :: "pystr \<Rightarrow> SegmentContext option \<Rightarrow> real" where
  "calculate_complexity text segment_context =
    (let score = 0;
         score = (if length text > 200 then score + 0.2 else score);
         score = (case segment_context of
                    None \<Rightarrow> score
                  | Some c \<Rightarrow>
                      (let score = (if is_metaphor c then score + 0.3 else score);
                           score = (if length (key_terms c) > 3 then score + 0.2 else score);
                           score = (if is_question c then score - 0.1 else score)
                       in score));
         score = (if py_any (\<lambda>pattern. py_in pattern text) complex_patterns
                  then score + 0.2 else score)
     in min 1.0 (max 0.0 score))"

text \<open>\<^verbatim>\<open>_select_model\<close>: the metaphor override, then the ladder.\<close>

definition select_model :: "real \<Rightarrow> SegmentContext option \<Rightarrow> TranslationModel" where
  "select_model complexity segment_context =
    (if (case segment_context of None \<Rightarrow> False | Some c \<Rightarrow> is_metaphor c) \<and> complexity > 0.5
     then GPT_4
     else if complexity < 0.3 then GPT_35_TURBO
     else if complexity < 0.7 then GPT_35_TURBO
     else GPT_4)"

text \<open>
  The score as the specification words it: a sum of independent weights, clamped.
\<close>

definition flagged_metaphor :: "SegmentContext option \<Rightarrow> bool" where
  "flagged_metaphor ctx = (case ctx of None \<Rightarrow> False | Some c \<Rightarrow> is_metaphor c)"

definition flagged_question :: "SegmentContext option \<Rightarrow> bool" where
  "flagged_question ctx = (case ctx of None \<Rightarrow> False | Some c \<Rightarrow> is_question c)"

definition many_key_terms :: "SegmentContext option \<Rightarrow> bool" where
  "many_key_terms ctx = (case ctx of None \<Rightarrow> False | Some c \<Rightarrow> length (key_terms c) > 3)"

definition has_hard_pattern :: "pystr \<Rightarrow> bool" where
  "has_hard_pattern text = (\<exists>p \<in> set complex_patterns. \<exists>a b. text = a @ p @ b)"

definition weight :: "bool \<Rightarrow> real \<Rightarrow> real" where
  "weight b w = (if b then w else 0)"

definition weighted_sum :: "pystr \<Rightarrow> SegmentContext option \<Rightarrow> real" where
  "weighted_sum text ctx =
     weight (length text > 200) 0.2 + weight (flagged_metaphor ctx) 0.3
   + weight (many_key_terms ctx) 0.2 + weight (flagged_question ctx) (- 0.1)
   + weight (has_hard_pattern text) 0.2"

section \<open>Progress tracking (src/scripts/whisper\_transcribe.py)\<close>

text \<open>
  The fields of \<^verbatim>\<open>ProgressTracker\<close> that the speed and the ETA read. The wall clock
  \<^verbatim>\<open>time.time()\<close> is the argument \<open>now\<close>. The attribute \<^verbatim>\<open>pbar\<close> is a tqdm bar or
  \<^verbatim>\<open>None\<close>; \<^verbatim>\<open>update\<close> is told which by the flag \<open>has_pbar\<close>.
\<close>

record ProgressTracker =
  total_duration :: real
  start_time :: real
  processed_duration :: real

text \<open>
  \<^verbatim>\<open>update\<close>: with a bar, the bar is advanced. Without one the progress line is computed
  and logged; its percentage divides by the total duration, which raises when that is
  zero, and its speed and ETA are guarded as in \<^verbatim>\<open>get_speed\<close> and \<^verbatim>\<open>get_eta\<close>.
\<close>

definition update :: "bool \<Rightarrow> ProgressTracker \<Rightarrow> real \<Rightarrow> py_error + ProgressTracker" where
  "update has_pbar t seconds_processed =
     (let t1 = t\<lparr>processed_duration := processed_duration t + seconds_processed\<rparr>
      in if has_pbar then Inr t1
         else if total_duration t1 = 0 then Inl ZeroDivisionError
         else Inr t1)"

definition get_speed :: "ProgressTracker \<Rightarrow> real \<Rightarrow> real" where
  "get_speed t now =
    (let elapsed = now - start_time t
     in if elapsed > 0 then processed_duration t / elapsed else 0)"

definition get_eta :: "ProgressTracker \<Rightarrow> real \<Rightarrow> real" where
  "get_eta t now =
    (let speed = get_speed t now;
         remaining_duration = total_duration t - processed_duration t
     in if speed > 0 then remaining_duration / speed else 0)"

section \<open>Python string operations\<close>

text \<open>\<^verbatim>\<open>str.isspace\<close> for one code point: the Unicode whitespace characters.\<close>

definition is_space :: "nat \<Rightarrow> bool" where
  "is_space c = (c \<in> {9, 10, 11, 12, 13, 28, 29, 30, 31, 32, 133, 160, 5760, 8232, 8233,
                       8239, 8287, 12288} \<or> (8192 \<le> c \<and> c \<le> 8202))"

text \<open>\<^verbatim>\<open>s.split()\<close>: the maximal runs of non-whitespace, in order.\<close>

fun split_ws :: "pystr \<Rightarrow> pystr \<Rightarrow> pystr list" where
  "split_ws [] cur = (if cur = [] then [] else [cur])"
| "split_ws (c # cs) cur =
     (if is_space c then (if cur = [] then split_ws cs [] else cur # split_ws cs [])
      else split_ws cs (cur @ [c]))"

definition py_split :: "pystr \<Rightarrow> pystr list" where
  "py_split s = split_ws s []"

definition py_strip :: "pystr \<Rightarrow> pystr" where
  "py_strip s = rev (dropWhile is_space (rev (dropWhile is_space s)))"

text \<open>\<^verbatim>\<open>sep.join(parts)\<close>.\<close>

fun py_join :: "pystr \<Rightarrow> pystr list \<Rightarrow> pystr" where
  "py_join sep [] = []"
| "py_join sep [x] = x"
| "py_join sep (x # y # ys) = x @ sep @ py_join sep (y # ys)"

text \<open>Decimal rendering of integers, as \<^verbatim>\<open>str(n)\<close> and \<^verbatim>\<open>f"{n}"\<close> give it.\<close>

fun str_nat :: "nat \<Rightarrow> pystr" where
  "str_nat n = (if n < 10 then [48 + n] else str_nat (n div 10) @ [48 + n mod 10])"

declare str_nat.simps [simp del]

definition str_int :: "int \<Rightarrow> pystr" where
  "str_int i = (if i < 0 then 45 # str_nat (nat (- i)) else str_nat (nat i))"

text \<open>
  \<^verbatim>\<open>str.encode()\<close>: UTF-8. A lone surrogate cannot be encoded and raises
  \<^verbatim>\<open>UnicodeEncodeError\<close>; values from 0x110000 on are not code points.
\<close>

definition utf8_char :: "nat \<Rightarrow> nat list option" where
  "utf8_char c =
    (if c < 128 then Some [c]
     else if c < 2048 then Some [192 + c div 64, 128 + c mod 64]
     else if c < 65536 then
       (if 55296 \<le> c \<and> c < 57344 then None
        else Some [224 + c div 4096, 128 + c div 64 mod 64, 128 + c mod 64])
     else if c < 1114112 then
       Some [240 + c div 262144, 128 + c div 4096 mod 64, 128 + c div 64 mod 64, 128 + c mod 64]
     else None)"

fun utf8_encode :: "pystr \<Rightarrow> nat list option" where
  "utf8_encode [] = Some []"
| "utf8_encode (c # cs) =
     (case utf8_char c of
        None \<Rightarrow> None
      | Some bs \<Rightarrow> (case utf8_encode cs of None \<Rightarrow> None | Some rest \<Rightarrow> Some (bs @ rest)))"

section \<open>MD5 (hashlib.md5, RFC 1321)\<close>

text \<open>
  The digest that \<^verbatim>\<open>hashlib.md5(...).hexdigest()\<close> computes, on bytes as numbers
  below 256 and 32-bit words as natural numbers with the wrap-around written out.
\<close>

definition md5_shifts :: "nat list" where
  "md5_shifts =
    [7, 12, 17, 22, 7, 12, 17, 22, 7, 12, 17, 22, 7, 12, 17, 22,
     5, 9, 14, 20, 5, 9, 14, 20, 5, 9, 14, 20, 5, 9, 14, 20,
     4, 11, 16, 23, 4, 11, 16, 23, 4, 11, 16, 23, 4, 11, 16, 23,
     6, 10, 15, 21, 6, 10, 15, 21, 6, 10, 15, 21, 6, 10, 15, 21]"

definition md5_sines :: "nat list" where
  "md5_sines =
    [0xd76aa478, 0xe8c7b756, 0x242070db, 0xc1bdceee, 0xf57c0faf, 0x4787c62a, 0xa8304613,
     0xfd469501, 0x698098d8, 0x8b44f7af, 0xffff5bb1, 0x895cd7be, 0x6b901122, 0xfd987193,
     0xa679438e, 0x49b40821, 0xf61e2562, 0xc040b340, 0x265e5a51, 0xe9b6c7aa, 0xd62f105d,
     0x02441453, 0xd8a1e681, 0xe7d3fbc8, 0x21e1cde6, 0xc33707d6, 0xf4d50d87, 0x455a14ed,
     0xa9e3e905, 0xfcefa3f8, 0x676f02d9, 0x8d2a4c8a, 0xfffa3942, 0x8771f681, 0x6d9d6122,
     0xfde5380c, 0xa4beea44, 0x4bdecfa9, 0xf6bb4b60, 0xbebfbc70, 0x289b7ec6, 0xeaa127fa,
     0xd4ef3085, 0x04881d05, 0xd9d4d039, 0xe6db99e5, 0x1fa27cf8, 0xc4ac5665, 0xf4292244,
     0x432aff97, 0xab9423a7, 0xfc93a039, 0x655b59c3, 0x8f0ccc92, 0xffeff47d, 0x85845dd1,
     0x6fa87e4f, 0xfe2ce6e0, 0xa3014314, 0x4e0811a1, 0xf7537e82, 0xbd3af235, 0x2ad7d2bb,
     0xeb86d391]"

text \<open>The 64 steps, in the four rounds of 16.\<close>

definition md5_indices :: "nat list" where
  "md5_indices =
     [0, 1, 2, 3, 4, 5, 6, 7, 8, 9, 10, 11, 12, 13, 14, 15]
     @ [16, 17, 18, 19, 20, 21, 22, 23, 24, 25, 26, 27, 28, 29, 30, 31]
     @ [32, 33, 34, 35, 36, 37, 38, 39, 40, 41, 42, 43, 44, 45, 46, 47]
     @ [48, 49, 50, 51, 52, 53, 54, 55, 56, 57, 58, 59, 60, 61, 62, 63]"

definition u32 :: "nat \<Rightarrow> nat" where
  "u32 x = x mod 4294967296"

definition not32 :: "nat \<Rightarrow> nat" where
  "not32 x = 4294967295 - x"

definition rotate_left :: "nat \<Rightarrow> nat \<Rightarrow> nat" where
  "rotate_left x n = u32 (x * 2 ^ n) + x div 2 ^ (32 - n)"

definition md5_f :: "nat \<Rightarrow> nat \<Rightarrow> nat \<Rightarrow> nat \<Rightarrow> nat" where
  "md5_f i b c d =
     (if i < 16 then (b AND c) OR (not32 b AND d)
      else if i < 32 then (d AND b) OR (not32 d AND c)
      else if i < 48 then b XOR c XOR d
      else c XOR (b OR not32 d))"

definition md5_g :: "nat \<Rightarrow> nat" where
  "md5_g i =
     (if i < 16 then i
      else if i < 32 then (5 * i + 1) mod 16
      else if i < 48 then (3 * i + 5) mod 16
      else (7 * i) mod 16)"

type_synonym md5_state = "nat \<times> nat \<times> nat \<times> nat"

fun md5_round :: "nat list \<Rightarrow> md5_state \<Rightarrow> nat \<Rightarrow> md5_state" where
  "md5_round m (a, b, c, d) i =
     (d, u32 (b + rotate_left (u32 (md5_f i b c d + a + md5_sines ! i + m ! md5_g i))
                    (md5_shifts ! i)), b, c)"

fun md5_add :: "md5_state \<Rightarrow> md5_state \<Rightarrow> md5_state" where
  "md5_add (a0, b0, c0, d0) (a, b, c, d) =
     (u32 (a0 + a), u32 (b0 + b), u32 (c0 + c), u32 (d0 + d))"

definition md5_block :: "md5_state \<Rightarrow> nat list \<Rightarrow> md5_state" where
  "md5_block st m = md5_add st (foldl (md5_round m) st md5_indices)"

fun le_word :: "nat list \<Rightarrow> nat" where
  "le_word [] = 0"
| "le_word (b # bs) = b + 256 * le_word bs"

text \<open>Consecutive slices of \<open>n\<close> elements (the last one may be shorter).\<close>

fun chunks :: "nat \<Rightarrow> 'a list \<Rightarrow> 'a list list" where
  "chunks n [] = []"
| "chunks n (x # xs) = take n (x # xs) # chunks n (drop (n - 1) xs)"

definition le_bytes4 :: "nat \<Rightarrow> nat list" where
  "le_bytes4 n = [n mod 256, n div 256 mod 256, n div 65536 mod 256, n div 16777216 mod 256]"

definition le_bytes8 :: "nat \<Rightarrow> nat list" where
  "le_bytes8 n = le_bytes4 (n mod 4294967296) @ le_bytes4 (n div 4294967296 mod 4294967296)"

definition md5_pad :: "nat list \<Rightarrow> nat list" where
  "md5_pad msg =
     msg @ [128] @ replicate ((119 - length msg mod 64) mod 64) 0 @ le_bytes8 (8 * length msg)"

fun md5_final :: "md5_state \<Rightarrow> nat list" where
  "md5_final (a, b, c, d) = le_bytes4 a @ le_bytes4 b @ le_bytes4 c @ le_bytes4 d"

definition md5_digest :: "nat list \<Rightarrow> nat list" where
  "md5_digest msg =
     md5_final (foldl md5_block (0x67452301, 0xefcdab89, 0x98badcfe, 0x10325476)
        (map (\<lambda>blk. map le_word (chunks 4 blk)) (chunks 64 (md5_pad msg))))"

definition hex_digit :: "nat \<Rightarrow> nat" where
  "hex_digit n = (if n < 10 then 48 + n else 87 + n)"

fun hexdigest :: "nat list \<Rightarrow> pystr" where
  "hexdigest [] = []"
| "hexdigest (b # bs) = hex_digit (b div 16) # hex_digit (b mod 16) # hexdigest bs"

section \<open>Translation cache (src/src/translation\_pipeline.py)\<close>

text \<open>
  \<^verbatim>\<open>TranslationCache\<close>: the dictionary \<^verbatim>\<open>memory_cache\<close> from key to translation and the
  counters of \<^verbatim>\<open>cache_stats\<close>. The periodic rewrite of the cache file changes nothing
  that the pipeline reads back during a run and is left out.
\<close>

record TranslationCache =
  memory_cache :: "pystr \<rightharpoonup> pystr"
  hits :: nat
  misses :: nat
  sets :: nat

definition generate_cache_key :: "pystr \<Rightarrow> pystr \<Rightarrow> pystr \<Rightarrow> py_error + pystr" where
  "generate_cache_key text context model =
    (let combined = text @ py ''|'' @ context @ py ''|'' @ model
     in case utf8_encode combined of
          None \<Rightarrow> Inl UnicodeEncodeError
        | Some bytes \<Rightarrow> Inr (hexdigest (md5_digest bytes)))"

definition cache_get ::
  "TranslationCache \<Rightarrow> pystr \<Rightarrow> pystr \<Rightarrow> pystr \<Rightarrow> py_error + (pystr option \<times> TranslationCache)"
where
  "cache_get c text context model =
    (case generate_cache_key text context model of
       Inl e \<Rightarrow> Inl e
     | Inr key \<Rightarrow>
        (case memory_cache c key of
           Some translation \<Rightarrow> Inr (Some translation, c\<lparr>hits := hits c + 1\<rparr>)
         | None \<Rightarrow> Inr (None, c\<lparr>misses := misses c + 1\<rparr>)))"

definition cache_set ::
  "TranslationCache \<Rightarrow> pystr \<Rightarrow> pystr \<Rightarrow> pystr \<Rightarrow> pystr \<Rightarrow> py_error + TranslationCache"
where
  "cache_set c text translation context model =
    (case generate_cache_key text context model of
       Inl e \<Rightarrow> Inl e
     | Inr key \<Rightarrow>
        Inr (c\<lparr>memory_cache := (memory_cache c)(key \<mapsto> translation), sets := sets c + 1\<rparr>))"

section \<open>Translation pipeline (src/src/translation\_pipeline.py)\<close>

record TranscriptionSegment =
  seg_id :: int
  seg_start_time :: real
  seg_end_time :: real
  seg_text :: pystr
  seg_confidence :: real
  speaker :: "pystr option"

text \<open>\<^verbatim>\<open>TranslationResult\<close> without the wall-clock field \<^verbatim>\<open>processing_time\<close>.\<close>

record TranslationResult =
  segment_id :: int
  original_text :: pystr
  translated_text :: pystr
  model_used :: pystr
  confidence :: real
  complexity_score :: real
  cached :: bool
  cost_estimate :: real

text \<open>The counters of \<^verbatim>\<open>PipelineStats\<close> that segment translation updates.\<close>

record PipelineStats =
  total_segments :: nat
  cached_segments :: nat
  gpt35_segments :: nat
  gpt4_segments :: nat
  local_segments :: nat
  total_cost :: real

text \<open>
  What a pipeline object holds and does not change while translating: the OpenAI client
  (\<^verbatim>\<open>None\<close> in mock mode), the dictionary lookup of the data manager and the
  \<^verbatim>\<open>str()\<close> of a segment context (the generated dataclass representation). The client is
  an external service: its answer to the \<open>k\<close>-th request is \<open>client k\<close>, either the text
  of the first choice or the exception raised. The prompt sent with the request does not
  influence the control flow and is not modelled.
\<close>

record PipelineEnv =
  client :: "(nat \<Rightarrow> py_error + pystr) option"
  find_term :: "pystr \<Rightarrow> pystr option"
  repr_context :: "SegmentContext \<Rightarrow> pystr"

text \<open>What translating changes: the cache, the statistics, the number of API requests.\<close>

record PipelineState =
  cache :: TranslationCache
  stats :: PipelineStats
  api_calls :: nat

definition mock_translation :: "pystr \<Rightarrow> pystr" where
  "mock_translation text =
     py ''[Mock translation of '' @ str_nat (length (py_split text)) @ py '' words: ''
       @ take 30 text @ py ''...]''"

text \<open>
  \<^verbatim>\<open>_fallback_translation\<close>: word by word, the dictionary's English term when the entry
  exists and its English is not empty, the bracketed word otherwise.
\<close>

definition fallback_word :: "(pystr \<Rightarrow> pystr option) \<Rightarrow> pystr \<Rightarrow> pystr" where
  "fallback_word lookup word =
    (case lookup word of
       Some english \<Rightarrow> (if english \<noteq> [] then english else py ''['' @ word @ py '']'')
     | None \<Rightarrow> py ''['' @ word @ py '']'')"

definition fallback_translation :: "(pystr \<Rightarrow> pystr option) \<Rightarrow> pystr \<Rightarrow> pystr" where
  "fallback_translation lookup text = py_join (py '' '') (map (fallback_word lookup) (py_split text))"

text \<open>
  \<^verbatim>\<open>_perform_translation\<close>: mock mode without a client; otherwise one request, whose
  stripped answer is returned, or the fallback translation when the request raises.
\<close>

definition perform_translation ::
  "PipelineEnv \<Rightarrow> pystr \<Rightarrow> TranslationModel \<Rightarrow> PipelineState \<Rightarrow> pystr \<times> PipelineState"
where
  "perform_translation env text model st =
    (case client env of
       None \<Rightarrow> (mock_translation text, st)
     | Some api \<Rightarrow>
        (case api (api_calls st) of
           Inr content \<Rightarrow> (py_strip content, st\<lparr>api_calls := api_calls st + 1\<rparr>)
         | Inl e \<Rightarrow> (fallback_translation (find_term env) text, st\<lparr>api_calls := api_calls st + 1\<rparr>)))"

fun model_costs :: "TranslationModel \<Rightarrow> real \<times> real" where
  "model_costs GPT_35_TURBO = (0.0005, 0.0015)"
| "model_costs GPT_4 = (0.01, 0.03)"
| "model_costs LOCAL = (0.0, 0.0)"
| "model_costs GPT_4_TURBO = (0.0005, 0.0015)"
| "model_costs MOCK = (0.0005, 0.0015)"

definition estimate_cost :: "pystr \<Rightarrow> pystr \<Rightarrow> TranslationModel \<Rightarrow> real" where
  "estimate_cost input_text output_text model =
    (let input_tokens = real (length input_text) / 4;
         output_tokens = real (length output_text) / 4
     in (input_tokens / 1000) * fst (model_costs model)
        + (output_tokens / 1000) * snd (model_costs model))"

definition count_model :: "TranslationModel \<Rightarrow> PipelineStats \<Rightarrow> PipelineStats" where
  "count_model model s =
    (if model = GPT_35_TURBO then s\<lparr>gpt35_segments := gpt35_segments s + 1\<rparr>
     else if model = GPT_4 then s\<lparr>gpt4_segments := gpt4_segments s + 1\<rparr>
     else s\<lparr>local_segments := local_segments s + 1\<rparr>)"

text \<open>
  \<^verbatim>\<open>_translate_single_segment\<close>. The lookup passes the text and the context string and
  leaves the model at its default, the empty string; the store passes the model's value.
  An empty cached translation is falsy and counts as a miss.
\<close>

definition translate_single_segment ::
  "PipelineEnv \<Rightarrow> TranscriptionSegment \<Rightarrow> SegmentContext option \<Rightarrow> PipelineState
     \<Rightarrow> py_error + (TranslationResult \<times> PipelineState)"
where
  "translate_single_segment env segment segment_context st =
    (let context_str = (case segment_context of None \<Rightarrow> [] | Some c \<Rightarrow> repr_context env c)
     in case cache_get (cache st) (seg_text segment) context_str [] of
          Inl e \<Rightarrow> Inl e
        | Inr (cached_translation, cache1) \<Rightarrow>
            (if cached_translation \<noteq> None \<and> cached_translation \<noteq> Some []
             then Inr (\<lparr>segment_id = seg_id segment, original_text = seg_text segment,
                        translated_text = the cached_translation, model_used = py ''cache'',
                        confidence = 1.0, complexity_score = 0.0, cached = True,
                        cost_estimate = 0.0\<rparr>,
                       st\<lparr>cache := cache1,
                          stats := (stats st)\<lparr>cached_segments := cached_segments (stats st) + 1\<rparr>\<rparr>)
             else
              (let complexity = calculate_complexity (seg_text segment) segment_context;
                   model = select_model complexity segment_context;
                   (translated, st1) = perform_translation env (seg_text segment) model
                                         (st\<lparr>cache := cache1\<rparr>)
               in case cache_set (cache st1) (seg_text segment) translated context_str
                         (model_value model) of
                    Inl e \<Rightarrow> Inl e
                  | Inr cache2 \<Rightarrow>
                     (let cost = estimate_cost (seg_text segment) translated model
                      in Inr (\<lparr>segment_id = seg_id segment, original_text = seg_text segment,
                                 translated_text = translated, model_used = model_value model,
                                 confidence = (if model = GPT_4 then 0.95 else 0.90),
                                 complexity_score = complexity, cached = False,
                                 cost_estimate = cost\<rparr>,
                               st1\<lparr>cache := cache2,
                                   stats := count_model model
                                     ((stats st1)\<lparr>total_cost := total_cost (stats st1) + cost\<rparr>)\<rparr>)))))"

text \<open>
  \<^verbatim>\<open>_translate_segments_with_context\<close>. A future of the thread pool is the outcome of its
  worker: a result, or the exception it raised. \<^verbatim>\<open>as_completed\<close> yields the futures of a
  batch in the order in which they finish, which is an arbitrary rearrangement chosen by
  the scheduler and a parameter here. The context of a segment is looked up in the main
  thread with Python's list indexing, which counts a negative index from the end and
  raises outside the list.
\<close>

type_synonym future = "py_error + TranslationResult"

definition segment_context_for ::
  "SegmentContext list \<Rightarrow> TranscriptionSegment \<Rightarrow> py_error + SegmentContext option"
where
  "segment_context_for segment_contexts segment =
    (let seg_idx = seg_id segment - 1; n = int (length segment_contexts)
     in if seg_idx < n then
          (if 0 \<le> seg_idx then Inr (Some (segment_contexts ! nat seg_idx))
           else if - n \<le> seg_idx then Inr (Some (segment_contexts ! nat (n + seg_idx)))
           else Inl IndexError)
        else Inr None)"

fun submit_batch ::
  "(TranscriptionSegment \<Rightarrow> SegmentContext option \<Rightarrow> future) \<Rightarrow> SegmentContext list
     \<Rightarrow> TranscriptionSegment list \<Rightarrow> py_error + future list"
where
  "submit_batch worker ctxs [] = Inr []"
| "submit_batch worker ctxs (segment # rest) =
    (case segment_context_for ctxs segment of
       Inl e \<Rightarrow> Inl e
     | Inr seg_context \<Rightarrow>
        (case submit_batch worker ctxs rest of
           Inl e \<Rightarrow> Inl e
         | Inr futures \<Rightarrow> Inr (worker segment seg_context # futures)))"

fun collect_results :: "future list \<Rightarrow> TranslationResult list \<Rightarrow> TranslationResult list" where
  "collect_results [] results = results"
| "collect_results (Inr result # futures) results = collect_results futures (results @ [result])"
| "collect_results (Inl e # futures) results = collect_results futures results"

fun run_batches ::
  "(TranscriptionSegment \<Rightarrow> SegmentContext option \<Rightarrow> future) \<Rightarrow> (future list \<Rightarrow> future list)
     \<Rightarrow> SegmentContext list \<Rightarrow> TranscriptionSegment list list \<Rightarrow> TranslationResult list
     \<Rightarrow> py_error + TranslationResult list"
where
  "run_batches worker as_completed ctxs [] results = Inr results"
| "run_batches worker as_completed ctxs (batch # batches) results =
    (case submit_batch worker ctxs batch of
       Inl e \<Rightarrow> Inl e
     | Inr futures \<Rightarrow>
        run_batches worker as_completed ctxs batches
          (collect_results (as_completed futures) results))"

definition translate_segments_with_context ::
  "int \<Rightarrow> (TranscriptionSegment \<Rightarrow> SegmentContext option \<Rightarrow> future)
     \<Rightarrow> (future list \<Rightarrow> future list) \<Rightarrow> SegmentContext list \<Rightarrow> TranscriptionSegment list
     \<Rightarrow> py_error + TranslationResult list"
where
  "translate_segments_with_context batch_size worker as_completed ctxs segments =
    (if batch_size = 0 then Inl ValueError
     else if batch_size < 0 then Inr (sort_key segment_id [])
     else case run_batches worker as_completed ctxs (chunks (nat batch_size) segments) [] of
            Inl e \<Rightarrow> Inl e
          | Inr results \<Rightarrow> Inr (sort_key segment_id results))"

section \<open>Concrete inputs\<close>

text \<open>A pipeline in mock mode, one segment, an empty cache and zeroed statistics.\<close>

definition mock_env :: PipelineEnv where
  "mock_env = \<lparr>client = None, find_term = (\<lambda>w. None), repr_context = (\<lambda>c. [])\<rparr>"

definition hello_segment :: TranscriptionSegment where
  "hello_segment = \<lparr>seg_id = 1, seg_start_time = 0, seg_end_time = 3, seg_text = py ''hello'',
                     seg_confidence = 0.9, speaker = None\<rparr>"

definition empty_cache :: TranslationCache where
  "empty_cache = \<lparr>memory_cache = Map.empty, hits = 0, misses = 0, sets = 0\<rparr>"

definition fresh_state :: PipelineState where
  "fresh_state = \<lparr>cache = empty_cache,
      stats = \<lparr>total_segments = 0, cached_segments = 0, gpt35_segments = 0, gpt4_segments = 0,
                local_segments = 0, total_cost = 0\<rparr>,
      api_calls = 0\<rparr>"

definition hello_result :: TranslationResult where
  "hello_result =
     \<lparr>segment_id = 1, original_text = py ''hello'',
      translated_text = py ''[Mock translation of 1 words: hello...]'',
      model_used = py ''gpt-3.5-turbo'', confidence = 0.9, complexity_score = 0,
      cached = False, cost_estimate = 61 / 4000000\<rparr>"

definition state_after_first :: PipelineState where
  "state_after_first =
     \<lparr>cache = \<lparr>memory_cache = [py ''ddabcc86390baafdb869e908be01cb34'' \<mapsto>
                   py ''[Mock translation of 1 words: hello...]''],
                hits = 0, misses = 1, sets = 1\<rparr>,
      stats = \<lparr>total_segments = 0, cached_segments = 0, gpt35_segments = 1,
                gpt4_segments = 0, local_segments = 0, total_cost = 61 / 4000000\<rparr>,
      api_calls = 0\<rparr>"

definition state_after_second :: PipelineState where
  "state_after_second =
     \<lparr>cache = \<lparr>memory_cache = [py ''ddabcc86390baafdb869e908be01cb34'' \<mapsto>
                   py ''[Mock translation of 1 words: hello...]''],
                hits = 0, misses = 2, sets = 2\<rparr>,
      stats = \<lparr>total_segments = 0, cached_segments = 0, gpt35_segments = 2,
                gpt4_segments = 0, local_segments = 0, total_cost = 61 / 2000000\<rparr>,
      api_calls = 0\<rparr>"

text \<open>
  The Thai text of the specification's cache scenario and two serialisations of the
  context with the fields topic and lang, in the two possible orders.
\<close>

definition thai_price_up :: pystr where
  "thai_price_up = [3619, 3634, 3588, 3634, 3586, 3638, 3657, 3609]"

definition context_topic_first :: pystr where
  "context_topic_first = py ''{topic: trend, lang: th}''"

definition context_lang_first :: pystr where
  "context_lang_first = py ''{lang: th, topic: trend}''"

section \<open>Parallel translation: auxiliary notions and concrete inputs\<close>

text \<open>
  The results held by a list of futures; the context that the lookup gives a segment when
  it does not raise, and the condition under which it does not raise; the futures of a
  list of segments in submission order; the context string of the cache key.
\<close>

definition successes :: "future list \<Rightarrow> TranslationResult list" where
  "successes futures = map projr (filter (\<lambda>f. \<not> isl f) futures)"

definition context_of :: "SegmentContext list \<Rightarrow> TranscriptionSegment \<Rightarrow> SegmentContext option" where
  "context_of ctxs segment = (case segment_context_for ctxs segment of Inr c \<Rightarrow> c | Inl e \<Rightarrow> None)"

definition lookup_in_range :: "SegmentContext list \<Rightarrow> TranscriptionSegment \<Rightarrow> bool" where
  "lookup_in_range ctxs segment = (- int (length ctxs) \<le> seg_id segment - 1)"

definition futures_of ::
  "(TranscriptionSegment \<Rightarrow> SegmentContext option \<Rightarrow> future) \<Rightarrow> SegmentContext list
     \<Rightarrow> TranscriptionSegment list \<Rightarrow> future list" where
  "futures_of worker ctxs segments = map (\<lambda>s. worker s (context_of ctxs s)) segments"

definition flaky_api :: "nat \<Rightarrow> py_error + pystr" where
  "flaky_api k = (if k = 0 then Inl APIError else Inr (py ''price goes up''))"

definition flaky_env :: PipelineEnv where
  "flaky_env = \<lparr>client = Some flaky_api, find_term = (\<lambda>w. None), repr_context = (\<lambda>c. [])\<rparr>"

definition context_string :: "PipelineEnv \<Rightarrow> SegmentContext option \<Rightarrow> pystr" where
  "context_string env segment_context =
     (case segment_context of None \<Rightarrow> [] | Some c \<Rightarrow> repr_context env c)"

definition segment_numbered :: "int \<Rightarrow> TranscriptionSegment" where
  "segment_numbered i = \<lparr>seg_id = i, seg_start_time = 0, seg_end_time = 1, seg_text = py ''hello'',
                          seg_confidence = 0.9, speaker = None\<rparr>"

definition plain_result :: "TranscriptionSegment \<Rightarrow> TranslationResult" where
  "plain_result s = \<lparr>segment_id = seg_id s, original_text = seg_text s,
      translated_text = py ''hi'', model_used = py ''gpt-3.5-turbo'', confidence = 0.9,
      complexity_score = 0, cached = False, cost_estimate = 0\<rparr>"

definition failing_worker :: "TranscriptionSegment \<Rightarrow> SegmentContext option \<Rightarrow> future" where
  "failing_worker s c = (if seg_id s = 2 then Inl APIError else Inr (plain_result s))"

definition three_segments :: "TranscriptionSegment list" where
  "three_segments = [segment_numbered 1, segment_numbered 2, segment_numbered 3]"

definition flaky_result :: TranslationResult where
  "flaky_result =
     \<lparr>segment_id = 1, original_text = py ''hello'', translated_text = py ''[hello]'',
      model_used = py ''gpt-3.5-turbo'', confidence = 0.9, complexity_score = 0,
      cached = False, cost_estimate = 13 / 4000000\<rparr>"

definition flaky_state :: PipelineState where
  "flaky_state =
     \<lparr>cache = \<lparr>memory_cache = [py ''ddabcc86390baafdb869e908be01cb34'' \<mapsto> py ''[hello]''],
                hits = 0, misses = 1, sets = 1\<rparr>,
      stats = \<lparr>total_segments = 0, cached_segments = 0, gpt35_segments = 1,
                gpt4_segments = 0, local_segments = 0, total_cost = 13 / 4000000\<rparr>,
      api_calls = 1\<rparr>"

section \<open>SRT generation (src/src/translation\_pipeline.py)\<close>

text \<open>Python's \<^verbatim>\<open>x % m\<close> on floats for a positive \<open>m\<close>: the result lies in \<open>[0, m)\<close>.\<close>

definition py_fmod :: "real \<Rightarrow> real \<Rightarrow> real" where
  "py_fmod x m = x - m * of_int \<lfloor>x / m\<rfloor>"

text \<open>The format \<^verbatim>\<open>{i:0Wd}\<close>: zero padding to width W, the sign counted in the width.\<close>

definition zero_pad :: "nat \<Rightarrow> pystr \<Rightarrow> pystr" where
  "zero_pad w s = replicate (w - length s) 48 @ s"

definition format_d :: "nat \<Rightarrow> int \<Rightarrow> pystr" where
  "format_d w i =
     (if i < 0 then 45 # zero_pad (w - 1) (str_nat (nat (- i))) else zero_pad w (str_nat (nat i)))"

text \<open>
  \<^verbatim>\<open>to_srt_timestamp\<close>, on the real number that the double \<^verbatim>\<open>time_seconds\<close> denotes and
  with exact arithmetic. For a time that is not negative the code's \<^verbatim>\<open>//\<close> and \<^verbatim>\<open>%\<close> are
  exact as well; its product \<^verbatim>\<open>(time_seconds % 1) * 1000\<close> is rounded to a double before
  \<^verbatim>\<open>int\<close> truncates it, so that for a fractional part just below a multiple of 1/1000 the
  code can print the next millisecond. A decimal such as 1.13 is not a double: the time
  that Python reads from it lies below 1.13 and has the millisecond field 129. Times from
  0 on that are multiples of 1/4, as in the examples of this theory, are printed alike.
\<close>

definition to_srt_timestamp :: "real \<Rightarrow> pystr" where
  "to_srt_timestamp time_seconds =
     format_d 2 \<lfloor>time_seconds / 3600\<rfloor> @ py '':''
     @ format_d 2 \<lfloor>py_fmod time_seconds 3600 / 60\<rfloor> @ py '':''
     @ format_d 2 \<lfloor>py_fmod time_seconds 60\<rfloor> @ py '',''
     @ format_d 3 \<lfloor>py_fmod time_seconds 1 * 1000\<rfloor>"

text \<open>\<^verbatim>\<open>to_srt\<close>: the number, the time line and the text, each ended by a line feed.\<close>

definition to_srt :: "TranscriptionSegment \<Rightarrow> pystr \<Rightarrow> pystr" where
  "to_srt segment text =
     str_int (seg_id segment) @ [10]
     @ to_srt_timestamp (seg_start_time segment) @ py '' --> ''
     @ to_srt_timestamp (seg_end_time segment) @ [10]
     @ text @ [10]"

text \<open>
  The dictionary \<^verbatim>\<open>{t.segment_id: t for t in translations}\<close>: a later translation
  replaces an earlier one with the same id.
\<close>

definition translation_map :: "TranslationResult list \<Rightarrow> (int \<rightharpoonup> TranslationResult)" where
  "translation_map translations = fold (\<lambda>t m. m(segment_id t \<mapsto> t)) translations Map.empty"

fun srt_loop ::
  "(int \<rightharpoonup> TranslationResult) \<Rightarrow> TranscriptionSegment list \<Rightarrow> pystr list \<Rightarrow> pystr list"
where
  "srt_loop m [] srt_content = srt_content"
| "srt_loop m (segment # rest) srt_content =
    (case m (seg_id segment) of
       Some translation \<Rightarrow>
         srt_loop m rest (srt_content @ [to_srt segment (translated_text translation)])
     | None \<Rightarrow>
         srt_loop m rest (srt_content @ [to_srt segment (py ''['' @ seg_text segment @ py '']'')]))"

definition srt_content :: "TranscriptionSegment list \<Rightarrow> TranslationResult list \<Rightarrow> pystr list" where
  "srt_content segments translations = srt_loop (translation_map translations) segments []"

text \<open>
  \<^verbatim>\<open>generate_srt\<close>. Creating the directory, opening the file and writing it is the file
  system's doing: \<open>write_file\<close> gives its outcome for the text to be written. The body in
  the \<^verbatim>\<open>try\<close> either completes or raises; the function returns \<^verbatim>\<open>True\<close> in the first
  case and, catching the exception, \<^verbatim>\<open>False\<close> in the second.
\<close>

definition generate_srt_body ::
  "TranscriptionSegment list \<Rightarrow> TranslationResult list \<Rightarrow> (pystr \<Rightarrow> py_error + unit)
     \<Rightarrow> py_error + unit"
where
  "generate_srt_body segments translations write_file =
     write_file (py_join [10] (srt_content segments translations))"

definition generate_srt ::
  "TranscriptionSegment list \<Rightarrow> TranslationResult list \<Rightarrow> (pystr \<Rightarrow> py_error + unit) \<Rightarrow> bool"
where
  "generate_srt segments translations write_file =
     (case generate_srt_body segments translations write_file of
        Inr done \<Rightarrow> True
      | Inl e \<Rightarrow> False)"

text \<open>
  The entry of one segment as the claim words it: the text of the translation result with
  the segment's id (the last one, if several have it), or the bracketed original text
  when no result has that id.
\<close>

definition srt_entry :: "TranslationResult list \<Rightarrow> TranscriptionSegment \<Rightarrow> pystr" where
  "srt_entry translations segment =
    (case filter (\<lambda>t. segment_id t = seg_id segment) translations of
       [] \<Rightarrow> to_srt segment (py ''['' @ seg_text segment @ py '']'')
     | t # ts \<Rightarrow> to_srt segment (translated_text (last (t # ts))))"

definition two_segments :: "TranscriptionSegment list" where
  "two_segments =
     [\<lparr>seg_id = 1, seg_start_time = 0, seg_end_time = 3.5, seg_text = py ''sawasdee'',
       seg_confidence = 0.95, speaker = None\<rparr>,
      \<lparr>seg_id = 2, seg_start_time = 3.5, seg_end_time = 3725.25, seg_text = py ''trend'',
       seg_confidence = 0.92, speaker = None\<rparr>]"

definition one_translation :: "TranslationResult list" where
  "one_translation =
     [\<lparr>segment_id = 1, original_text = py ''sawasdee'', translated_text = py ''Hello'',
       model_used = py ''gpt-4'', confidence = 0.95, complexity_score = 0.1, cached = False,
       cost_estimate = 0\<rparr>]"

section \<open>Files and crashes\<close>

text \<open>
  A file written by \<^verbatim>\<open>json.dump\<close> holds either the complete JSON text of a value or,
  while it is being written, the first characters of that text. A proper prefix of the
  JSON text of an object is not a JSON text, so \<^verbatim>\<open>json.load\<close> raises on it. A directory
  is the list of its files, the most recently modified first. A process runs a list of
  file-system steps; a crash after \<open>k\<close> steps leaves the directory as the first \<open>k\<close>
  steps made it. Renaming is one step, as on POSIX.
\<close>

datatype 'a file_content = Document 'a | Prefix 'a nat

type_synonym ('p, 'a) disk = "('p \<times> 'a file_content) list"

datatype ('p, 'a) fs_step = OpenW 'p 'a | WriteChunk 'p nat | WriteRest 'p | Replace 'p 'p

definition put_file :: "'p \<Rightarrow> 'a file_content \<Rightarrow> ('p, 'a) disk \<Rightarrow> ('p, 'a) disk" where
  "put_file p f d = (p, f) # filter (\<lambda>e. fst e \<noteq> p) d"

fun apply_step :: "('p, 'a) fs_step \<Rightarrow> ('p, 'a) disk \<Rightarrow> ('p, 'a) disk" where
  "apply_step (OpenW p v) d = put_file p (Prefix v 0) d"
| "apply_step (WriteChunk p n) d =
     (case map_of d p of Some (Prefix v k) \<Rightarrow> put_file p (Prefix v (k + n)) d | _ \<Rightarrow> d)"
| "apply_step (WriteRest p) d =
     (case map_of d p of Some (Prefix v k) \<Rightarrow> put_file p (Document v) d | _ \<Rightarrow> d)"
| "apply_step (Replace a b) d =
     (case map_of d a of
        Some f \<Rightarrow> map (\<lambda>e. if fst e = a then (b, snd e) else e) (filter (\<lambda>e. fst e \<noteq> b) d)
      | None \<Rightarrow> d)"

definition run_steps :: "('p, 'a) fs_step list \<Rightarrow> ('p, 'a) disk \<Rightarrow> ('p, 'a) disk" where
  "run_steps steps d = foldl (\<lambda>d s. apply_step s d) d steps"

definition crash_after :: "nat \<Rightarrow> ('p, 'a) fs_step list \<Rightarrow> ('p, 'a) disk \<Rightarrow> ('p, 'a) disk" where
  "crash_after k steps d = run_steps (take k steps) d"

section \<open>Checkpoints of the transcription script (src/scripts/whisper\_transcribe.py)\<close>

text \<open>\<^verbatim>\<open>CheckpointData\<close> without its wall-clock fields.\<close>

record CheckpointData =
  video_file :: pystr
  video_hash :: pystr
  checkpoint_model :: pystr
  last_segment_id :: int
  last_timestamp :: real
  checkpoint_total_segments :: nat

definition checkpoint_file :: string where
  "checkpoint_file = ''checkpoint.json''"

definition temp_file :: string where
  "temp_file = ''checkpoint.tmp''"

text \<open>
  \<^verbatim>\<open>save_checkpoint\<close>: the temporary file is opened for writing, the JSON text is
  written in some number of pieces, and the temporary file replaces the checkpoint file.
\<close>

definition save_checkpoint :: "CheckpointData \<Rightarrow> nat list \<Rightarrow> (string, CheckpointData) fs_step list" where
  "save_checkpoint data pieces =
     OpenW temp_file data # map (WriteChunk temp_file) pieces
     @ [WriteRest temp_file, Replace temp_file checkpoint_file]"

definition has_checkpoint :: "(string, CheckpointData) disk \<Rightarrow> bool" where
  "has_checkpoint d = (map_of d checkpoint_file \<noteq> None)"

text \<open>\<^verbatim>\<open>load_checkpoint\<close>: \<^verbatim>\<open>None\<close> without a file, and when reading it raises.\<close>

definition load_checkpoint :: "(string, CheckpointData) disk \<Rightarrow> CheckpointData option" where
  "load_checkpoint d =
     (case map_of d checkpoint_file of
        None \<Rightarrow> None
      | Some (Document data) \<Rightarrow> Some data
      | Some (Prefix data k) \<Rightarrow> None)"

section \<open>Checkpoints of the Kaggle runner (src/kaggle/checkpoint\_manager.py)\<close>

datatype kaggle_path = FinalTranscript | CheckpointFile nat

record KaggleSegment =
  ks_id :: int
  ks_start :: real
  ks_end :: real
  ks_text :: pystr

text \<open>The checkpoint dictionary without its timestamp and the caller's other metadata.\<close>

record KaggleCheckpoint =
  kc_video_name :: pystr
  kc_total_segments :: nat
  kc_last_segment_time :: real
  kc_progress_percentage :: real
  kc_segments :: "KaggleSegment list"

text \<open>
  \<^verbatim>\<open>save_checkpoint\<close> of the Kaggle manager: nothing is written off the interval
  unless forced; otherwise the checkpoint file named after the segment count is opened
  for writing and the JSON text is written into it.
\<close>

definition kaggle_save_checkpoint ::
  "int \<Rightarrow> pystr \<Rightarrow> KaggleSegment list \<Rightarrow> nat option \<Rightarrow> bool \<Rightarrow> nat list
     \<Rightarrow> py_error + (kaggle_path, KaggleCheckpoint) fs_step list"
where
  "kaggle_save_checkpoint checkpoint_interval video_name segments estimated_total force pieces =
    (let segment_count = length segments
     in if \<not> force \<and> checkpoint_interval = 0 then Inl ZeroDivisionError
        else if \<not> force \<and> int segment_count mod checkpoint_interval \<noteq> 0 then Inr []
        else
          (let path = CheckpointFile segment_count;
               total_duration = (if segments = [] then 0 else ks_end (last segments));
               divisor = (case estimated_total of None \<Rightarrow> segment_count | Some t \<Rightarrow> t)
           in if divisor = 0 then Inl ZeroDivisionError
              else
                (let checkpoint_data =
                       \<lparr>kc_video_name = video_name, kc_total_segments = segment_count,
                        kc_last_segment_time = total_duration,
                        kc_progress_percentage = real segment_count / real divisor * 100,
                        kc_segments = segments\<rparr>
                 in Inr (OpenW path checkpoint_data # map (WriteChunk path) pieces
                         @ [WriteRest path]))))"

text \<open>
  \<^verbatim>\<open>load_checkpoint\<close> of the Kaggle manager: the final transcript when there is one,
  else the most recently modified checkpoint file; reading is not guarded.
\<close>

fun is_checkpoint_file :: "kaggle_path \<times> 'a \<Rightarrow> bool" where
  "is_checkpoint_file (CheckpointFile n, f) = True"
| "is_checkpoint_file (FinalTranscript, f) = False"

definition read_json :: "'a file_content \<Rightarrow> py_error + 'a" where
  "read_json f = (case f of Document v \<Rightarrow> Inr v | Prefix v k \<Rightarrow> Inl JSONDecodeError)"

definition kaggle_load_checkpoint ::
  "(kaggle_path, KaggleCheckpoint) disk \<Rightarrow> py_error + KaggleCheckpoint" where
  "kaggle_load_checkpoint d =
     (case map_of d FinalTranscript of
        Some f \<Rightarrow> read_json f
      | None \<Rightarrow>
         (case filter is_checkpoint_file d of
            [] \<Rightarrow> Inl FileNotFoundError
          | latest # older \<Rightarrow> read_json (snd latest)))"

text \<open>A directory with the checkpoint of two segments, and the saving of four.\<close>

definition kaggle_segment :: "int \<Rightarrow> KaggleSegment" where
  "kaggle_segment i = \<lparr>ks_id = i, ks_start = of_int i * 10, ks_end = of_int i * 10 + 10,
                        ks_text = py ''segment''\<rparr>"

definition checkpoint_of_two :: KaggleCheckpoint where
  "checkpoint_of_two =
     \<lparr>kc_video_name = py ''ep-01'', kc_total_segments = 2, kc_last_segment_time = 20,
      kc_progress_percentage = 50, kc_segments = [kaggle_segment 0, kaggle_segment 1]\<rparr>"

definition checkpoint_of_four :: KaggleCheckpoint where
  "checkpoint_of_four =
     \<lparr>kc_video_name = py ''ep-01'', kc_total_segments = 4, kc_last_segment_time = 40,
      kc_progress_percentage = 100,
      kc_segments = [kaggle_segment 0, kaggle_segment 1, kaggle_segment 2, kaggle_segment 3]\<rparr>"

definition kaggle_dir :: "(kaggle_path, KaggleCheckpoint) disk" where
  "kaggle_dir = [(CheckpointFile 2, Document checkpoint_of_two)]"

definition saving_four :: "(kaggle_path, KaggleCheckpoint) fs_step list" where
  "saving_four =
     [OpenW (CheckpointFile 4) checkpoint_of_four, WriteChunk (CheckpointFile 4) 100,
      WriteChunk (CheckpointFile 4) 100, WriteRest (CheckpointFile 4)]"

section \<open>Resumable transcription (src/scripts/whisper\_transcribe.py)\<close>

text \<open>
  What Whisper returns for a segment and for a word: dictionaries, whose optional keys
  are options here.
\<close>

record RawWord =
  rw_word :: "pystr option"
  rw_start :: "real option"
  rw_end :: "real option"
  rw_probability :: "real option"

record RawSegment =
  rs_start :: real
  rs_end :: real
  rs_text :: pystr
  rs_words :: "RawWord list option"

record WhisperResult =
  wr_language :: pystr
  wr_segments :: "RawSegment list"

record Word =
  word :: pystr
  word_start :: real
  word_end :: real
  probability :: real

record TranscriptSegment =
  ts_id :: nat
  ts_start :: real
  ts_end :: real
  ts_text :: pystr
  ts_confidence :: real
  ts_words :: "Word list option"

text \<open>\<^verbatim>\<open>TranscriptResult\<close> without its timestamp.\<close>

record TranscriptResult =
  tr_language :: pystr
  tr_duration :: real
  tr_segments :: "TranscriptSegment list"
  tr_text :: pystr
  tr_word_count :: nat
  tr_average_confidence :: real
  tr_model_name :: pystr

text \<open>\<^verbatim>\<open>d.get(key, default)\<close>.\<close>

definition get_or :: "'a option \<Rightarrow> 'a \<Rightarrow> 'a" where
  "get_or v fallback = (case v of None \<Rightarrow> fallback | Some x \<Rightarrow> x)"

definition make_words :: "real \<Rightarrow> RawWord list \<Rightarrow> Word list" where
  "make_words start_time_offset ws =
     map (\<lambda>w. \<lparr>word = get_or (rw_word w) [],
                word_start = get_or (rw_start w) 0 + start_time_offset,
                word_end = get_or (rw_end w) 0 + start_time_offset,
                probability = get_or (rw_probability w) 0\<rparr>) ws"

definition segment_confidence :: "Word list option \<Rightarrow> real" where
  "segment_confidence words =
     (case words of
        None \<Rightarrow> 1
      | Some ws \<Rightarrow> (if ws = [] then 1 else sum_list (map probability ws) / real (length ws)))"

definition make_segment :: "nat \<Rightarrow> RawSegment \<Rightarrow> real \<Rightarrow> TranscriptSegment" where
  "make_segment i seg start_time_offset =
     (let words = map_option (make_words start_time_offset) (rs_words seg)
      in \<lparr>ts_id = i, ts_start = rs_start seg + start_time_offset,
          ts_end = rs_end seg + start_time_offset, ts_text = py_strip (rs_text seg),
          ts_confidence = segment_confidence words, ts_words = words\<rparr>)"

text \<open>
  The checkpoint directory of one video: the checkpoint file, which \<^verbatim>\<open>save_checkpoint\<close>
  replaces in one step and which therefore holds a complete record or is absent, and the
  batch files by number. Writes to the directory are taken to succeed.
\<close>

record TranscribeDisk =
  checkpoint_json :: "CheckpointData option"
  batch_files :: "(nat \<times> TranscriptSegment list) list"

record SegmentBatcher =
  batch_size :: int
  current_batch :: "TranscriptSegment list"
  batch_count :: nat

definition new_batcher :: "int \<Rightarrow> SegmentBatcher" where
  "new_batcher n = \<lparr>batch_size = n, current_batch = [], batch_count = 0\<rparr>"

text \<open>\<^verbatim>\<open>flush\<close>: the buffer goes to the file numbered \<^verbatim>\<open>batch_count\<close>, replacing it.\<close>

definition flush :: "SegmentBatcher \<Rightarrow> TranscribeDisk \<Rightarrow> SegmentBatcher \<times> TranscribeDisk" where
  "flush b d =
     (if current_batch b = [] then (b, d)
      else (b\<lparr>current_batch := [], batch_count := batch_count b + 1\<rparr>,
            d\<lparr>batch_files := (batch_count b, current_batch b)
                 # filter (\<lambda>e. fst e \<noteq> batch_count b) (batch_files d)\<rparr>))"

definition add_segment ::
  "SegmentBatcher \<Rightarrow> TranscriptSegment \<Rightarrow> TranscribeDisk \<Rightarrow> SegmentBatcher \<times> TranscribeDisk"
where
  "add_segment b segment d =
     (let b1 = b\<lparr>current_batch := current_batch b @ [segment]\<rparr>
      in if int (length (current_batch b1)) \<ge> batch_size b1 then flush b1 d else (b1, d))"

text \<open>
  \<^verbatim>\<open>get_all_segments\<close>: the batch files in the order of their names
  \<^verbatim>\<open>batch_NNN.json\<close>, concatenated.
\<close>

definition batch_name :: "nat \<Rightarrow> pystr" where
  "batch_name n = py ''batch_'' @ format_d 3 (int n) @ py ''.json''"

definition get_all_segments :: "TranscribeDisk \<Rightarrow> TranscriptSegment list" where
  "get_all_segments d = concat (map snd (sort_key (\<lambda>e. batch_name (fst e)) (batch_files d)))"

definition cleanup :: "TranscribeDisk \<Rightarrow> TranscribeDisk" where
  "cleanup d = \<lparr>checkpoint_json = None, batch_files = []\<rparr>"

text \<open>
  The arguments and attributes that \<^verbatim>\<open>transcribe_file\<close> reads, with the answer typed at
  the resume prompt, whether the progress tracker gets a tqdm bar (tqdm is installed and
  the output is a terminal) and the reading of the clock when the tracker is created.
\<close>

record TranscribeSettings =
  use_checkpoints :: bool
  checkpoint_interval :: int
  resume_from_checkpoint :: bool
  response :: pystr
  start_time_offset :: real
  model_name :: pystr
  audio_name :: pystr
  audio_hash :: pystr
  progress_bar :: bool
  clock :: real

definition ascii_lower :: "nat \<Rightarrow> nat" where
  "ascii_lower c = (if 65 \<le> c \<and> c \<le> 90 then c + 32 else c)"

text \<open>
  The answer, stripped and lower-cased, is one of the empty string, y and yes. Only
  ASCII letters lower-case to the letters of these words.
\<close>

definition confirms :: "pystr \<Rightarrow> bool" where
  "confirms answer =
     (let r = map ascii_lower (py_strip answer) in r = [] \<or> r = py ''y'' \<or> r = py ''yes'')"

record LoopState =
  ls_segments :: "TranscriptSegment list"
  ls_batcher :: "SegmentBatcher option"
  ls_disk :: TranscribeDisk
  ls_checkpoint :: CheckpointData
  ls_tracker :: ProgressTracker

text \<open>
  The part of \<^verbatim>\<open>transcribe_file\<close> before the transcription: the segments loaded from the
  batch files, the index to resume from, the batcher and the directory.
\<close>

definition prepare ::
  "TranscribeSettings \<Rightarrow> TranscribeDisk
     \<Rightarrow> TranscriptSegment list \<times> int \<times> SegmentBatcher option \<times> TranscribeDisk"
where
  "prepare settings d =
    (if use_checkpoints settings then
       (if resume_from_checkpoint settings \<and> checkpoint_json d \<noteq> None then
          (case checkpoint_json d of
             Some checkpoint_data \<Rightarrow>
               (if confirms (response settings)
                then (get_all_segments d, last_segment_id checkpoint_data,
                      Some (new_batcher 100), d)
                else ([], 0, Some (new_batcher 100), cleanup d))
           | None \<Rightarrow> ([], 0, Some (new_batcher 100), d))
        else ([], 0, Some (new_batcher 100), d))
     else ([], 0, None, d))"

text \<open>
  One iteration of the loop over \<^verbatim>\<open>enumerate(result['segments'])\<close>: the segment is
  appended to the list and handed to the batcher; from the second index on the progress
  tracker is advanced by the distance to the end of the previous segment; with
  checkpoints enabled, every \<^verbatim>\<open>checkpoint_interval\<close>-th index saves the checkpoint.
\<close>

definition record_segment :: "TranscriptSegment \<Rightarrow> LoopState \<Rightarrow> LoopState" where
  "record_segment segment st =
     (case ls_batcher st of
        None \<Rightarrow> st\<lparr>ls_segments := ls_segments st @ [segment]\<rparr>
      | Some b \<Rightarrow>
         st\<lparr>ls_segments := ls_segments st @ [segment],
            ls_batcher := Some (fst (add_segment b segment (ls_disk st))),
            ls_disk := snd (add_segment b segment (ls_disk st))\<rparr>)"

definition track_progress ::
  "TranscribeSettings \<Rightarrow> WhisperResult \<Rightarrow> nat \<Rightarrow> RawSegment \<Rightarrow> LoopState \<Rightarrow> py_error + LoopState"
where
  "track_progress settings result i seg st =
     (if i > 0 then
        (if i - 1 < length (wr_segments result) then
           (case update (progress_bar settings) (ls_tracker st)
                   (rs_end seg - rs_end (wr_segments result ! (i - 1))) of
              Inl e \<Rightarrow> Inl e
            | Inr tracker \<Rightarrow> Inr (st\<lparr>ls_tracker := tracker\<rparr>))
         else Inl IndexError)
      else Inr st)"

definition checkpoint_now :: "TranscribeSettings \<Rightarrow> nat \<Rightarrow> RawSegment \<Rightarrow> LoopState \<Rightarrow> LoopState" where
  "checkpoint_now settings i seg st =
     st\<lparr>ls_checkpoint := (ls_checkpoint st)
            \<lparr>last_segment_id := int i,
             last_timestamp := rs_end seg + start_time_offset settings\<rparr>,
        ls_disk := (ls_disk st)
            \<lparr>checkpoint_json := Some ((ls_checkpoint st)
               \<lparr>last_segment_id := int i,
                last_timestamp := rs_end seg + start_time_offset settings\<rparr>)\<rparr>\<rparr>"

definition save_if_due ::
  "TranscribeSettings \<Rightarrow> nat \<Rightarrow> RawSegment \<Rightarrow> LoopState \<Rightarrow> py_error + LoopState"
where
  "save_if_due settings i seg st =
     (if use_checkpoints settings then
        (if checkpoint_interval settings = 0 then Inl ZeroDivisionError
         else if (int i + 1) mod checkpoint_interval settings = 0
         then Inr (checkpoint_now settings i seg st)
         else Inr st)
      else Inr st)"

text \<open>An exception ends the iteration and the loop.\<close>

definition and_then :: "'e + 'a \<Rightarrow> ('a \<Rightarrow> 'e + 'b) \<Rightarrow> 'e + 'b" where
  "and_then m f = (case m of Inl e \<Rightarrow> Inl e | Inr x \<Rightarrow> f x)"

fun loop_step ::
  "TranscribeSettings \<Rightarrow> WhisperResult \<Rightarrow> int \<Rightarrow> nat \<times> RawSegment \<Rightarrow> LoopState
     \<Rightarrow> py_error + LoopState"
where
  "loop_step settings result resume_from_segment (i, seg) st =
    (if int i < resume_from_segment then Inr st
     else and_then
            (track_progress settings result i seg
               (record_segment (make_segment i seg (start_time_offset settings)) st))
            (save_if_due settings i seg))"

fun run_loop ::
  "TranscribeSettings \<Rightarrow> WhisperResult \<Rightarrow> int \<Rightarrow> (nat \<times> RawSegment) list \<Rightarrow> LoopState
     \<Rightarrow> py_error + LoopState"
where
  "run_loop settings result resume_from_segment [] st = Inr st"
| "run_loop settings result resume_from_segment (item # items) st =
     and_then (loop_step settings result resume_from_segment item st)
       (run_loop settings result resume_from_segment items)"

fun enumerate_from :: "nat \<Rightarrow> 'a list \<Rightarrow> (nat \<times> 'a) list" where
  "enumerate_from i [] = []"
| "enumerate_from i (x # xs) = (i, x) # enumerate_from (i + 1) xs"

definition initial_state ::
  "TranscribeSettings \<Rightarrow> WhisperResult \<Rightarrow> SegmentBatcher option \<Rightarrow> TranscribeDisk \<Rightarrow> LoopState"
where
  "initial_state settings result batcher d =
     \<lparr>ls_segments = [], ls_batcher = batcher, ls_disk = d,
      ls_checkpoint = \<lparr>video_file = audio_name settings, video_hash = audio_hash settings,
                        checkpoint_model = model_name settings, last_segment_id = 0,
                        last_timestamp = 0,
                        checkpoint_total_segments = length (wr_segments result)\<rparr>,
      ls_tracker = \<lparr>total_duration = (if wr_segments result \<noteq> []
                                        then rs_end (last (wr_segments result)) else 0),
                     start_time = clock settings, processed_duration = 0\<rparr>\<rparr>"

text \<open>
  \<^verbatim>\<open>transcribe_file\<close>: preparation, the loop, the final flush, the merge with the resumed
  segments, the statistics and the removal of the checkpoint directory. The closing log
  lines are left out; the one that reports the speed divides by the elapsed wall time,
  which is taken to be positive. An exception in the loop is raised again after the
  checkpoint saved last has been written once more; the error value stands for it, without
  the directory it leaves.
\<close>

definition finish ::
  "TranscribeSettings \<Rightarrow> WhisperResult \<Rightarrow> TranscriptSegment list \<Rightarrow> LoopState
     \<Rightarrow> TranscriptResult \<times> TranscribeDisk"
where
  "finish settings result resumed_segments st =
    (let d1 = (case ls_batcher st of None \<Rightarrow> ls_disk st | Some b \<Rightarrow> snd (flush b (ls_disk st)));
         segments = (if resumed_segments \<noteq> [] then resumed_segments @ ls_segments st
                     else ls_segments st);
         total_text = py_join (py '' '') (map ts_text segments);
         word_count = length (py_split total_text);
         avg_confidence = (if segments \<noteq> []
                           then sum_list (map ts_confidence segments) / real (length segments)
                           else 0);
         duration = (if segments \<noteq> [] then ts_end (last segments) else 0)
     in (\<lparr>tr_language = wr_language result, tr_duration = duration, tr_segments = segments,
          tr_text = total_text, tr_word_count = word_count,
          tr_average_confidence = avg_confidence, tr_model_name = model_name settings\<rparr>,
         (if use_checkpoints settings then cleanup d1 else d1)))"

definition transcribe_file ::
  "TranscribeSettings \<Rightarrow> WhisperResult \<Rightarrow> TranscribeDisk
     \<Rightarrow> py_error + (TranscriptResult \<times> TranscribeDisk)"
where
  "transcribe_file settings result d =
    (case prepare settings d of
       (resumed_segments, resume_from_segment, batcher, d1) \<Rightarrow>
         (case run_loop settings result resume_from_segment
                 (enumerate_from 0 (wr_segments result))
                 (initial_state settings result batcher d1) of
            Inl e \<Rightarrow> Inl e
          | Inr st \<Rightarrow> Inr (finish settings result resumed_segments st)))"

text \<open>
  A run that is killed after \<open>n\<close> iterations of the loop: what it leaves in the
  checkpoint directory.
\<close>

definition interrupted_run ::
  "TranscribeSettings \<Rightarrow> WhisperResult \<Rightarrow> TranscribeDisk \<Rightarrow> nat \<Rightarrow> py_error + TranscribeDisk"
where
  "interrupted_run settings result d n =
    (case prepare settings d of
       (resumed_segments, resume_from_segment, batcher, d1) \<Rightarrow>
         (case run_loop settings result resume_from_segment
                 (take n (enumerate_from 0 (wr_segments result)))
                 (initial_state settings result batcher d1) of
            Inl e \<Rightarrow> Inl e
          | Inr st \<Rightarrow> Inr (ls_disk st)))"

text \<open>
  The specification's scenario: 25 segments, a checkpoint every 10 segments, the process
  killed after the segment with index 19.
\<close>

definition one_second :: RawSegment where
  "one_second = \<lparr>rs_start = 0, rs_end = 1, rs_text = py '' a '', rs_words = None\<rparr>"

definition silence :: RawSegment where
  "silence = \<lparr>rs_start = 0, rs_end = 0, rs_text = [], rs_words = None\<rparr>"

definition whisper_25 :: WhisperResult where
  "whisper_25 = \<lparr>wr_language = py ''th'', wr_segments = replicate 25 one_second\<rparr>"

definition first_run :: TranscribeSettings where
  "first_run = \<lparr>use_checkpoints = True, checkpoint_interval = 10,
                 resume_from_checkpoint = False, response = [], start_time_offset = 0,
                 model_name = py ''large-v3'', audio_name = py ''ep-01.mp4'',
                 audio_hash = py ''0a1b2c3d'', progress_bar = False, clock = 0\<rparr>"

definition resumed_run :: TranscribeSettings where
  "resumed_run = first_run\<lparr>resume_from_checkpoint := True, response := py ''y''\<rparr>"

definition no_files :: TranscribeDisk where
  "no_files = \<lparr>checkpoint_json = None, batch_files = []\<rparr>"

definition after_kill :: TranscribeDisk where
  "after_kill =
     \<lparr>checkpoint_json =
        Some \<lparr>video_file = py ''ep-01.mp4'', video_hash = py ''0a1b2c3d'',
              checkpoint_model = py ''large-v3'', last_segment_id = 19, last_timestamp = 1,
              checkpoint_total_segments = 25\<rparr>,
      batch_files = []\<rparr>"

section \<open>Checkpoints and resuming: auxiliary notions\<close>

text \<open>Steps on the temporary file leave the checkpoint file as it is.\<close>

fun on_temp :: "(string, 'a) fs_step \<Rightarrow> bool" where
  "on_temp (OpenW p v) = (p = temp_file)"
| "on_temp (WriteChunk p n) = (p = temp_file)"
| "on_temp (WriteRest p) = (p = temp_file)"
| "on_temp (Replace a b) = False"

text \<open>The segments that a loop over the items appends.\<close>

definition produced :: "TranscribeSettings \<Rightarrow> int \<Rightarrow> (nat \<times> RawSegment) list \<Rightarrow> TranscriptSegment list" where
  "produced s r items =
     map (\<lambda>item. make_segment (fst item) (snd item) (start_time_offset s))
       (filter (\<lambda>item. \<not> int (fst item) < r) items)"

text \<open>While fewer than a hundred segments have been produced, all of them wait in the
  batcher's buffer and no batch file exists.\<close>

definition buffering :: "LoopState \<Rightarrow> bool" where
  "buffering st =
     (\<exists>b. ls_batcher st = Some b \<and> batch_size b = 100 \<and> batch_count b = 0
          \<and> current_batch b = ls_segments st \<and> batch_files (ls_disk st) = [])"

definition same_job :: "CheckpointData \<Rightarrow> CheckpointData \<Rightarrow> bool" where
  "same_job c c' =
     (video_file c' = video_file c \<and> video_hash c' = video_hash c
      \<and> checkpoint_model c' = checkpoint_model c
      \<and> checkpoint_total_segments c' = checkpoint_total_segments c)"

section \<open>Strings: helper facts\<close>

lemma starts_with_iff: "starts_with p t \<longleftrightarrow> (\<exists>b. t = p @ b)"
  by (induction p t rule: starts_with.induct) auto

lemma py_in_iff: "py_in p t \<longleftrightarrow> (\<exists>a b. t = a @ p @ b)"
proof (induction t)
  case Nil
  then show ?case by auto
next
  case (Cons c cs)
  show ?case
  proof
    assume "py_in p (c # cs)"
    then consider "starts_with p (c # cs)" | "py_in p cs" by auto
    then show "\<exists>a b. c # cs = a @ p @ b"
    proof cases
      case 1
      then obtain b where "c # cs = p @ b" by (auto simp: starts_with_iff)
      then have "c # cs = [] @ p @ b" by simp
      then show ?thesis by blast
    next
      case 2
      then obtain a b where "cs = a @ p @ b" using Cons.IH by auto
      then have "c # cs = (c # a) @ p @ b" by simp
      then show ?thesis by blast
    qed
  next
    assume "\<exists>a b. c # cs = a @ p @ b"
    then obtain a b where ab: "c # cs = a @ p @ b" by auto
    show "py_in p (c # cs)"
    proof (cases a)
      case Nil
      then have "starts_with p (c # cs)" using ab by (auto simp: starts_with_iff)
      then show ?thesis by simp
    next
      case (Cons a1 as)
      then have "cs = as @ p @ b" using ab by simp
      then have "py_in p cs" using Cons.IH by blast
      then show ?thesis by simp
    qed
  qed
qed

lemma py_any_iff: "py_any f xs \<longleftrightarrow> (\<exists>x \<in> set xs. f x)"
  by (induction xs) auto

section \<open>Complexity routing: properties\<close>

lemma calculate_complexity_weighted:
  "calculate_complexity text ctx = min 1 (max 0 (weighted_sum text ctx))"
proof -
  have pat: "py_any (\<lambda>pattern. py_in pattern text) complex_patterns = has_hard_pattern text"
    by (simp add: py_any_iff py_in_iff has_hard_pattern_def)
  show ?thesis
    unfolding calculate_complexity_def weighted_sum_def pat Let_def weight_def
      flagged_metaphor_def flagged_question_def many_key_terms_def
    by (cases ctx) auto
qed

text \<open>
  C7. The complexity score computed by \<^verbatim>\<open>_calculate_complexity\<close> is the clamp to
  [0,1] of the weighted sum of the specification (+0.2 for a text longer than 200
  code points, +0.3 for a metaphor context, +0.2 for more than 3 key terms, -0.1 for a
  question, +0.2 for a hard-pattern substring); it always lies in [0,1]; it is a
  function of the text and the context alone.
\<close>

theorem calculate_complexity_is_clamped_weighted_sum:
  "calculate_complexity text ctx = min 1 (max 0 (weighted_sum text ctx))
   \<and> 0 \<le> calculate_complexity text ctx \<and> calculate_complexity text ctx \<le> 1"
  by (simp add: calculate_complexity_weighted)

theorem calculate_complexity_is_clamped_weighted_sum_witness:
  "calculate_complexity (py ''abc'')
      (Some \<lparr>index = 0, ctx_text = py ''abc'', is_question = True, is_metaphor = True,
             key_terms = []\<rparr>) = 0.2
   \<and> weighted_sum (py ''abc'')
      (Some \<lparr>index = 0, ctx_text = py ''abc'', is_question = True, is_metaphor = True,
             key_terms = []\<rparr>) = 0.2"
proof -
  let ?c = "Some \<lparr>index = 0, ctx_text = py ''abc'', is_question = True, is_metaphor = True,
             key_terms = []\<rparr>"
  have c: "calculate_complexity (py ''abc'') ?c = 0.2"
    by (simp add: calculate_complexity_def py_def complex_patterns_def)
  from calculate_complexity_is_clamped_weighted_sum [of "py ''abc''" ?c]
  have "calculate_complexity (py ''abc'') ?c = min 1 (max 0 (weighted_sum (py ''abc'') ?c))"
    by simp
  moreover have "weighted_sum (py ''abc'') ?c = 0.2"
    by (simp add: weighted_sum_def weight_def flagged_metaphor_def flagged_question_def
        many_key_terms_def has_hard_pattern_def complex_patterns_def py_def
        append_eq_Cons_conv Cons_eq_append_conv)
  ultimately show ?thesis using c by simp
qed

text \<open>
  C6. Tier selection: a metaphor context with a score above 0.5 gives the expensive
  tier GPT-4 whatever the ladder says; otherwise a score below 0.3 and a score in
  [0.3, 0.7) both give the cheap tier GPT-3.5, and a score of at least 0.7 gives GPT-4.
\<close>

theorem select_model_ladder_with_override:
  "(flagged_metaphor ctx \<and> s > 0.5 \<longrightarrow> select_model s ctx = GPT_4)
   \<and> (\<not> (flagged_metaphor ctx \<and> s > 0.5) \<longrightarrow>
        (s < 0.3 \<longrightarrow> select_model s ctx = GPT_35_TURBO)
      \<and> (0.3 \<le> s \<and> s < 0.7 \<longrightarrow> select_model s ctx = GPT_35_TURBO)
      \<and> (s \<ge> 0.7 \<longrightarrow> select_model s ctx = GPT_4))"
  by (auto simp: select_model_def flagged_metaphor_def)

theorem select_model_ladder_with_override_witness:
  "select_model 0.6 (Some \<lparr>index = 0, ctx_text = [], is_question = False,
      is_metaphor = True, key_terms = []\<rparr>) = GPT_4
   \<and> select_model 0.6 None = GPT_35_TURBO
   \<and> select_model 0.2 None = GPT_35_TURBO
   \<and> select_model 0.7 None = GPT_4"
  using select_model_ladder_with_override [of "Some \<lparr>index = 0, ctx_text = [],
      is_question = False, is_metaphor = True, key_terms = []\<rparr>" "0.6"]
    select_model_ladder_with_override [of None "0.6"]
    select_model_ladder_with_override [of None "0.2"]
    select_model_ladder_with_override [of None "0.7"]
  by (simp add: flagged_metaphor_def)

section \<open>Progress tracking: properties\<close>

text \<open>
  C5 as stated fails: with nothing processed the speed is 0 and \<^verbatim>\<open>get_eta\<close> returns
  the number 0, not an unknown marker. A tracker for 100 seconds of audio, asked after 5
  seconds of wall time with nothing processed, reports an ETA of 0 seconds.
\<close>

theorem get_eta_no_work_counterexample:
  "processed_duration \<lparr>total_duration = 100, start_time = 0, processed_duration = 0\<rparr> = 0
   \<and> get_speed \<lparr>total_duration = 100, start_time = 0, processed_duration = 0\<rparr> 5 = 0
   \<and> get_eta \<lparr>total_duration = 100, start_time = 0, processed_duration = 0\<rparr> 5 = 0"
  by (simp add: get_eta_def get_speed_def)

text \<open>
  C5 amended. When the processed duration is zero the speed is 0 and \<^verbatim>\<open>get_eta\<close>
  returns 0 (it does not raise); more generally it returns 0 whenever the speed is not
  positive; whenever the speed is positive it returns the remaining duration divided by
  the speed.
\<close>

theorem get_eta_zero_or_quotient:
  "(processed_duration t = 0 \<longrightarrow> get_speed t now = 0 \<and> get_eta t now = 0)
   \<and> (get_speed t now \<le> 0 \<longrightarrow> get_eta t now = 0)
   \<and> (get_speed t now > 0 \<longrightarrow>
        get_eta t now = (total_duration t - processed_duration t) / get_speed t now)"
proof -
  have zero: "processed_duration t = 0 \<Longrightarrow> get_speed t now = 0"
    by (simp add: get_speed_def Let_def)
  have eta: "get_eta t now =
      (if get_speed t now > 0
       then (total_duration t - processed_duration t) / get_speed t now else 0)"
    by (simp add: get_eta_def Let_def)
  show ?thesis using zero by (simp add: eta)
qed

theorem get_eta_zero_or_quotient_witness:
  "get_speed \<lparr>total_duration = 100, start_time = 0, processed_duration = 20\<rparr> 10 = 2
   \<and> get_eta \<lparr>total_duration = 100, start_time = 0, processed_duration = 20\<rparr> 10 = 40
   \<and> get_eta \<lparr>total_duration = 100, start_time = 0, processed_duration = 0\<rparr> 10 = 0"
  using get_eta_zero_or_quotient
    [of "\<lparr>total_duration = 100, start_time = 0, processed_duration = 20\<rparr>" 10]
    get_eta_zero_or_quotient
    [of "\<lparr>total_duration = 100, start_time = 0, processed_duration = 0\<rparr>" 10]
  by (simp add: get_speed_def)

section \<open>Cache keys: evaluation\<close>

lemma replicate_num: "replicate (numeral k) x = x # replicate (pred_numeral k) x"
  by (simp add: numeral_eq_Suc)

lemmas md5_eval = generate_cache_key_def utf8_char_def md5_digest_def md5_pad_def le_bytes8_def
  le_bytes4_def md5_block_def md5_indices_def md5_f_def md5_g_def md5_sines_def md5_shifts_def
  u32_def not32_def rotate_left_def hex_digit_def py_def replicate_num

text \<open>The digests are those \<^verbatim>\<open>hashlib.md5\<close> gives for the same bytes.\<close>

lemma md5_of_abc: "hexdigest (md5_digest (py ''abc'')) = py ''900150983cd24fb0d6963f7d28e17f72''"
  by (simp add: md5_eval)

lemma key_hello_lookup:
  "generate_cache_key (py ''hello'') [] [] = Inr (py ''679f7e56723647641e4e9c852465812b'')"
  by (simp add: md5_eval)

lemma key_hello_store:
  "generate_cache_key (py ''hello'') [] (model_value GPT_35_TURBO)
     = Inr (py ''ddabcc86390baafdb869e908be01cb34'')"
  by (simp add: md5_eval)

lemma key_topic_first:
  "generate_cache_key thai_price_up context_topic_first (py ''cheap'')
     = Inr (py ''414b6557306ebeae6891e1cd8ce45612'')"
  by (simp add: md5_eval thai_price_up_def context_topic_first_def)

lemma key_lang_first:
  "generate_cache_key thai_price_up context_lang_first (py ''cheap'')
     = Inr (py ''1d3e90c067ea3b70dbce101e5b29df5e'')"
  by (simp add: md5_eval thai_price_up_def context_lang_first_def)

lemma hello_keys_differ:
  "py ''679f7e56723647641e4e9c852465812b'' \<noteq> py ''ddabcc86390baafdb869e908be01cb34''"
  by (simp add: py_def)

lemma context_keys_differ:
  "py ''1d3e90c067ea3b70dbce101e5b29df5e'' \<noteq> py ''414b6557306ebeae6891e1cd8ce45612''"
  by (simp add: py_def)

lemma mock_hello:
  "mock_translation (py ''hello'') = py ''[Mock translation of 1 words: hello...]''"
  by (simp add: mock_translation_def py_split_def is_space_def py_def str_nat.simps)

lemma hello_complexity: "calculate_complexity (py ''hello'') None = 0"
  by (simp add: calculate_complexity_def complex_patterns_def py_def)

lemma hello_model: "select_model 0 None = GPT_35_TURBO"
  by (simp add: select_model_def)

lemma hello_cost:
  "estimate_cost (py ''hello'') (py ''[Mock translation of 1 words: hello...]'') GPT_35_TURBO
     = 61 / 4000000"
  by (simp add: estimate_cost_def py_def)

lemma first_call:
  "translate_single_segment mock_env hello_segment None fresh_state
     = Inr (hello_result, state_after_first)"
  unfolding translate_single_segment_def mock_env_def hello_segment_def fresh_state_def
    empty_cache_def hello_result_def state_after_first_def
  by (simp add: cache_get_def cache_set_def key_hello_lookup key_hello_store hello_complexity
      hello_model perform_translation_def mock_hello hello_cost count_model_def Let_def
      del: model_value.simps) simp

lemma second_call:
  "translate_single_segment mock_env hello_segment None state_after_first
     = Inr (hello_result, state_after_second)"
  unfolding translate_single_segment_def mock_env_def hello_segment_def
    hello_result_def state_after_first_def state_after_second_def
  by (simp add: cache_get_def cache_set_def key_hello_lookup key_hello_store hello_complexity
      hello_model perform_translation_def mock_hello hello_cost count_model_def Let_def
      hello_keys_differ del: model_value.simps) simp

section \<open>Translation cache: properties\<close>

text \<open>
  C3 on the code: the segment ``hello'' without context is translated twice by a pipeline
  in mock mode that starts with an empty cache. The lookup key is the digest of
  \<^verbatim>\<open>hello||\<close>, the result is stored under the digest of \<^verbatim>\<open>hello||gpt-3.5-turbo\<close>, and
  the two differ. The second call therefore misses, translates again, returns a result
  that is not marked as cached and adds the cost a second time: the accumulated cost
  goes from 61/4000000 to twice that, with two misses and no hit.
\<close>

theorem second_translation_misses_and_charges_again:
  "translate_single_segment mock_env hello_segment None fresh_state
     = Inr (hello_result, state_after_first)
   \<and> translate_single_segment mock_env hello_segment None state_after_first
     = Inr (hello_result, state_after_second)
   \<and> generate_cache_key (py ''hello'') [] []
       \<noteq> generate_cache_key (py ''hello'') [] (model_value GPT_35_TURBO)
   \<and> \<not> cached hello_result
   \<and> cost_estimate hello_result = 61 / 4000000
   \<and> total_cost (stats state_after_first) = 61 / 4000000
   \<and> total_cost (stats state_after_second) = 2 * (61 / 4000000)
   \<and> hits (cache state_after_second) = 0
   \<and> misses (cache state_after_second) = 2"
proof -
  have keys: "generate_cache_key (py ''hello'') [] []
       \<noteq> generate_cache_key (py ''hello'') [] (model_value GPT_35_TURBO)"
    by (simp add: key_hello_lookup key_hello_store hello_keys_differ del: model_value.simps)
  have fields: "\<not> cached hello_result
     \<and> cost_estimate hello_result = 61 / 4000000
     \<and> total_cost (stats state_after_first) = 61 / 4000000
     \<and> total_cost (stats state_after_second) = 2 * (61 / 4000000)
     \<and> hits (cache state_after_second) = 0
     \<and> misses (cache state_after_second) = 2"
    by (simp add: hello_result_def state_after_first_def state_after_second_def)
  show ?thesis using first_call second_call keys fields by blast
qed

text \<open>
  C4 as stated fails: the key is the digest of the strings as given. The same text and
  tier with the context \<^verbatim>\<open>{topic: trend, lang: th}\<close> and with the same context written
  \<^verbatim>\<open>{lang: th, topic: trend}\<close> get different keys, and a lookup with the second
  serialisation after a store under the first one misses.
\<close>

theorem cache_key_field_order_counterexample:
  "generate_cache_key thai_price_up context_topic_first (py ''cheap'')
     \<noteq> generate_cache_key thai_price_up context_lang_first (py ''cheap'')
   \<and> cache_set empty_cache thai_price_up (py ''price up'') context_topic_first (py ''cheap'')
     = Inr \<lparr>memory_cache = [py ''414b6557306ebeae6891e1cd8ce45612'' \<mapsto> py ''price up''],
            hits = 0, misses = 0, sets = 1\<rparr>
   \<and> cache_get \<lparr>memory_cache = [py ''414b6557306ebeae6891e1cd8ce45612'' \<mapsto> py ''price up''],
                 hits = 0, misses = 0, sets = 1\<rparr>
        thai_price_up context_lang_first (py ''cheap'')
     = Inr (None, \<lparr>memory_cache = [py ''414b6557306ebeae6891e1cd8ce45612'' \<mapsto> py ''price up''],
                   hits = 0, misses = 1, sets = 1\<rparr>)"
  by (simp add: key_topic_first key_lang_first context_keys_differ
      context_keys_differ [symmetric] cache_set_def cache_get_def empty_cache_def)

lemma length_hexdigest: "length (hexdigest bs) = 2 * length bs"
  by (induction bs) simp_all

lemma length_md5_digest: "length (md5_digest msg) = 16"
proof -
  have "length (md5_final st) = 16" for st
    by (cases st) (simp add: le_bytes4_def)
  then show ?thesis by (simp add: md5_digest_def)
qed

lemma hex_digit_range: "n < 16 \<Longrightarrow> hex_digit n \<in> set (py ''0123456789abcdef'')"
  by (auto simp: hex_digit_def py_def)

lemma md5_digest_bytes: "\<forall>b \<in> set (md5_digest msg). b < 256"
proof -
  have "\<forall>b \<in> set (md5_final st). b < 256" for st
    by (cases st) (simp add: le_bytes4_def)
  then show ?thesis by (simp add: md5_digest_def)
qed

lemma hexdigest_chars:
  "\<forall>b \<in> set bs. b < 256 \<Longrightarrow> set (hexdigest bs) \<subseteq> set (py ''0123456789abcdef'')"
proof (induction bs)
  case Nil
  then show ?case by simp
next
  case (Cons b bs)
  then have "b div 16 < 16" "b mod 16 < 16" by auto
  then show ?case using Cons hex_digit_range by simp
qed

lemma cache_key_shape:
  "generate_cache_key text context model = Inr key
   \<Longrightarrow> length key = 32 \<and> set key \<subseteq> set (py ''0123456789abcdef'')"
  using hexdigest_chars [OF md5_digest_bytes]
  by (auto simp: generate_cache_key_def Let_def length_hexdigest length_md5_digest
      split: option.splits)

lemma lookup_after_store:
  assumes "cache_set c text translation context model = Inr c'"
    and "generate_cache_key text context model = Inr key"
    and "generate_cache_key text' context' model' = Inr key'"
  shows "cache_get c' text' context' model'
          = (if key' = key then Inr (Some translation, c'\<lparr>hits := hits c' + 1\<rparr>)
             else case memory_cache c key' of
                    Some old \<Rightarrow> Inr (Some old, c'\<lparr>hits := hits c' + 1\<rparr>)
                  | None \<Rightarrow> Inr (None, c'\<lparr>misses := misses c' + 1\<rparr>))"
  using assms by (cases "key' = key") (auto simp: cache_set_def cache_get_def split: option.splits)

text \<open>
  C4 amended. The key is the MD5 hex digest of the UTF-8 encoding of the string
  \<^verbatim>\<open>text|context|model\<close> built from the arguments as they are passed, 32 characters
  from \<^verbatim>\<open>0-9a-f\<close>; nothing is sorted or normalised, so the key depends on the arguments
  through the joined string only. After a store, a lookup whose key equals the key of the
  store hits and returns the stored translation, in particular a lookup with the same
  text, context string and model string; a lookup with another key is answered from what
  the cache held under that key before the store. For the context written
  \<^verbatim>\<open>{topic: trend, lang: th}\<close> and written \<^verbatim>\<open>{lang: th, topic: trend}\<close> the keys are the
  two different digests given.
\<close>

theorem cache_key_is_digest_of_exact_strings:
  "generate_cache_key text context model
     = (case utf8_encode (text @ py ''|'' @ context @ py ''|'' @ model) of
          None \<Rightarrow> Inl UnicodeEncodeError
        | Some bytes \<Rightarrow> Inr (hexdigest (md5_digest bytes)))
   \<and> (generate_cache_key text context model = Inr key \<longrightarrow>
        length key = 32 \<and> set key \<subseteq> set (py ''0123456789abcdef''))
   \<and> (text' @ py ''|'' @ context' @ py ''|'' @ model' = text @ py ''|'' @ context @ py ''|'' @ model
        \<longrightarrow> generate_cache_key text' context' model' = generate_cache_key text context model)
   \<and> (cache_set c text translation context model = Inr c'
        \<and> generate_cache_key text context model = Inr key
        \<and> generate_cache_key text' context' model' = Inr key' \<longrightarrow>
        cache_get c' text' context' model'
          = (if key' = key then Inr (Some translation, c'\<lparr>hits := hits c' + 1\<rparr>)
             else case memory_cache c key' of
                    Some old \<Rightarrow> Inr (Some old, c'\<lparr>hits := hits c' + 1\<rparr>)
                  | None \<Rightarrow> Inr (None, c'\<lparr>misses := misses c' + 1\<rparr>)))
   \<and> generate_cache_key thai_price_up context_topic_first (py ''cheap'')
       = Inr (py ''414b6557306ebeae6891e1cd8ce45612'')
   \<and> generate_cache_key thai_price_up context_lang_first (py ''cheap'')
       = Inr (py ''1d3e90c067ea3b70dbce101e5b29df5e'')"
proof (intro conjI impI)
  show "generate_cache_key text context model
     = (case utf8_encode (text @ py ''|'' @ context @ py ''|'' @ model) of
          None \<Rightarrow> Inl UnicodeEncodeError
        | Some bytes \<Rightarrow> Inr (hexdigest (md5_digest bytes)))"
    by (simp add: generate_cache_key_def Let_def)
next
  assume "generate_cache_key text context model = Inr key"
  then show "length key = 32" and "set key \<subseteq> set (py ''0123456789abcdef'')"
    using cache_key_shape by blast+
next
  assume "text' @ py ''|'' @ context' @ py ''|'' @ model' = text @ py ''|'' @ context @ py ''|'' @ model"
  then show "generate_cache_key text' context' model' = generate_cache_key text context model"
    by (simp add: generate_cache_key_def Let_def)
next
  assume "cache_set c text translation context model = Inr c'
        \<and> generate_cache_key text context model = Inr key
        \<and> generate_cache_key text' context' model' = Inr key'"
  then show "cache_get c' text' context' model'
          = (if key' = key then Inr (Some translation, c'\<lparr>hits := hits c' + 1\<rparr>)
             else case memory_cache c key' of
                    Some old \<Rightarrow> Inr (Some old, c'\<lparr>hits := hits c' + 1\<rparr>)
                  | None \<Rightarrow> Inr (None, c'\<lparr>misses := misses c' + 1\<rparr>))"
    using lookup_after_store by blast
next
  show "generate_cache_key thai_price_up context_topic_first (py ''cheap'')
       = Inr (py ''414b6557306ebeae6891e1cd8ce45612'')"
    by (rule key_topic_first)
next
  show "generate_cache_key thai_price_up context_lang_first (py ''cheap'')
       = Inr (py ''1d3e90c067ea3b70dbce101e5b29df5e'')"
    by (rule key_lang_first)
qed

theorem cache_key_is_digest_of_exact_strings_witness:
  "generate_cache_key thai_price_up context_topic_first (py ''cheap'')
     = Inr (py ''414b6557306ebeae6891e1cd8ce45612'')
   \<and> length (py ''414b6557306ebeae6891e1cd8ce45612'') = 32
   \<and> generate_cache_key (py ''a|b'') (py ''c'') (py ''m'')
     = generate_cache_key (py ''a'') (py ''b|c'') (py ''m'')
   \<and> cache_set empty_cache thai_price_up (py ''price up'') context_topic_first (py ''cheap'')
     = Inr \<lparr>memory_cache = [py ''414b6557306ebeae6891e1cd8ce45612'' \<mapsto> py ''price up''],
            hits = 0, misses = 0, sets = 1\<rparr>
   \<and> cache_get \<lparr>memory_cache = [py ''414b6557306ebeae6891e1cd8ce45612'' \<mapsto> py ''price up''],
                 hits = 0, misses = 0, sets = 1\<rparr>
        thai_price_up context_topic_first (py ''cheap'')
     = Inr (Some (py ''price up''),
            \<lparr>memory_cache = [py ''414b6557306ebeae6891e1cd8ce45612'' \<mapsto> py ''price up''],
             hits = 1, misses = 0, sets = 1\<rparr>)
   \<and> cache_get \<lparr>memory_cache = [py ''414b6557306ebeae6891e1cd8ce45612'' \<mapsto> py ''price up''],
                 hits = 0, misses = 0, sets = 1\<rparr>
        thai_price_up context_lang_first (py ''cheap'')
     = Inr (None,
            \<lparr>memory_cache = [py ''414b6557306ebeae6891e1cd8ce45612'' \<mapsto> py ''price up''],
             hits = 0, misses = 1, sets = 1\<rparr>)"
proof -
  let ?stored = "\<lparr>memory_cache = [py ''414b6557306ebeae6891e1cd8ce45612'' \<mapsto> py ''price up''],
            hits = 0, misses = 0, sets = 1\<rparr>"
  let ?k1 = "py ''414b6557306ebeae6891e1cd8ce45612''"
  let ?k2 = "py ''1d3e90c067ea3b70dbce101e5b29df5e''"
  note same = cache_key_is_digest_of_exact_strings
    [of thai_price_up context_topic_first "py ''cheap''" ?k1
        thai_price_up context_topic_first "py ''cheap''" empty_cache "py ''price up''" ?stored ?k1]
  note other = cache_key_is_digest_of_exact_strings
    [of thai_price_up context_topic_first "py ''cheap''" ?k1
        thai_price_up context_lang_first "py ''cheap''" empty_cache "py ''price up''" ?stored ?k2]
  note joined = cache_key_is_digest_of_exact_strings
    [of "py ''a|b''" "py ''c''" "py ''m''" _ "py ''a''" "py ''b|c''" "py ''m''"]
  have k1: "generate_cache_key thai_price_up context_topic_first (py ''cheap'') = Inr ?k1"
    using same by blast
  have k2: "generate_cache_key thai_price_up context_lang_first (py ''cheap'') = Inr ?k2"
    using same by blast
  have len: "length ?k1 = 32"
    using same k1 by blast
  have stored:
    "cache_set empty_cache thai_price_up (py ''price up'') context_topic_first (py ''cheap'')
       = Inr ?stored"
    by (simp add: k1 cache_set_def empty_cache_def)
  have hit: "cache_get ?stored thai_price_up context_topic_first (py ''cheap'')
      = Inr (Some (py ''price up''), ?stored\<lparr>hits := hits ?stored + 1\<rparr>)"
    using same stored k1 by simp
  have miss: "cache_get ?stored thai_price_up context_lang_first (py ''cheap'')
      = Inr (None, ?stored\<lparr>misses := misses ?stored + 1\<rparr>)"
    using other stored k1 k2 context_keys_differ by (simp add: empty_cache_def)
  have j: "py ''a'' @ py ''|'' @ py ''b|c'' @ py ''|'' @ py ''m''
      = py ''a|b'' @ py ''|'' @ py ''c'' @ py ''|'' @ py ''m''"
    by (simp add: py_def)
  have amb: "generate_cache_key (py ''a'') (py ''b|c'') (py ''m'')
     = generate_cache_key (py ''a|b'') (py ''c'') (py ''m'')"
    using joined j by blast
  show ?thesis using k1 len amb stored hit miss by simp
qed

section \<open>Parallel translation and failures: properties\<close>

lemma collect_results_eq: "collect_results fs acc = acc @ successes fs"
  by (induction fs acc rule: collect_results.induct) (simp_all add: successes_def)

lemma mset_successes: "mset fs = mset gs \<Longrightarrow> mset (successes fs) = mset (successes gs)"
  by (simp add: successes_def)

lemma successes_append: "successes (xs @ ys) = successes xs @ successes ys"
  by (simp add: successes_def)

lemma segment_context_in_range:
  "lookup_in_range ctxs s \<Longrightarrow> segment_context_for ctxs s = Inr (context_of ctxs s)"
  by (auto simp: lookup_in_range_def segment_context_for_def context_of_def Let_def)

lemma segment_context_out_of_range:
  "\<not> lookup_in_range ctxs s \<Longrightarrow> segment_context_for ctxs s = Inl IndexError"
  by (auto simp: lookup_in_range_def segment_context_for_def Let_def)

lemma submit_batch_in_range:
  "\<forall>s \<in> set batch. lookup_in_range ctxs s
   \<Longrightarrow> submit_batch worker ctxs batch = Inr (futures_of worker ctxs batch)"
  by (induction batch) (simp_all add: futures_of_def segment_context_in_range)

lemma run_batches_in_range:
  "\<forall>s \<in> set (concat batches). lookup_in_range ctxs s
   \<Longrightarrow> \<forall>fs. mset (as_completed fs) = mset fs
   \<Longrightarrow> \<exists>results. run_batches worker as_completed ctxs batches acc = Inr results
        \<and> mset results = mset acc + mset (successes (futures_of worker ctxs (concat batches)))"
proof (induction batches arbitrary: acc)
  case Nil
  then show ?case by (simp add: futures_of_def successes_def)
next
  case (Cons batch batches)
  have sub: "submit_batch worker ctxs batch = Inr (futures_of worker ctxs batch)"
    using Cons.prems(1) by (intro submit_batch_in_range) simp
  have rest: "\<forall>s \<in> set (concat batches). lookup_in_range ctxs s"
    using Cons.prems(1) by simp
  from Cons.IH [OF rest Cons.prems(2),
      of "collect_results (as_completed (futures_of worker ctxs batch)) acc"]
  obtain results where
    r: "run_batches worker as_completed ctxs batches
          (collect_results (as_completed (futures_of worker ctxs batch)) acc) = Inr results"
    and m: "mset results =
          mset (collect_results (as_completed (futures_of worker ctxs batch)) acc)
          + mset (successes (futures_of worker ctxs (concat batches)))"
    by blast
  have perm: "mset (successes (as_completed (futures_of worker ctxs batch)))
      = mset (successes (futures_of worker ctxs batch))"
    using Cons.prems(2) by (intro mset_successes) simp
  have "run_batches worker as_completed ctxs (batch # batches) acc = Inr results"
    using sub r by simp
  moreover have "mset results
      = mset acc + mset (successes (futures_of worker ctxs (concat (batch # batches))))"
    using m perm by (simp add: collect_results_eq futures_of_def successes_append)
  ultimately show ?case by blast
qed

lemma concat_chunks: "0 < n \<Longrightarrow> concat (chunks n xs) = xs"
proof (induction n xs rule: chunks.induct)
  case (1 n)
  then show ?case by simp
next
  case (2 n x xs)
  then obtain m where n: "n = Suc m" by (cases n) auto
  have "concat (chunks n (drop (n - 1) xs)) = drop (n - 1) xs" using 2 by simp
  then show ?case using n by simp
qed

lemma translate_segments_mset:
  assumes "0 < bsize"
    and "\<forall>s \<in> set segments. lookup_in_range ctxs s"
    and "\<forall>fs. mset (as_completed fs) = mset fs"
  shows "\<exists>results. translate_segments_with_context bsize worker as_completed ctxs segments
            = Inr results
        \<and> mset results = mset (successes (futures_of worker ctxs segments))
        \<and> sorted (map segment_id results)"
proof -
  have c: "concat (chunks (nat bsize) segments) = segments"
    using assms(1) by (intro concat_chunks) simp
  from run_batches_in_range [of "chunks (nat bsize) segments" ctxs as_completed worker "[]"]
  obtain rs where
    r: "run_batches worker as_completed ctxs (chunks (nat bsize) segments) [] = Inr rs"
    and m: "mset rs = mset (successes (futures_of worker ctxs segments))"
    using assms(2,3) c by auto
  have "translate_segments_with_context bsize worker as_completed ctxs segments
          = Inr (sort_key segment_id rs)"
    using assms(1) r by (simp add: translate_segments_with_context_def)
  moreover have "mset (sort_key segment_id rs) = mset (successes (futures_of worker ctxs segments))"
    using m by simp
  moreover have "sorted (map segment_id (sort_key segment_id rs))"
    by (rule sorted_sort_key)
  ultimately show ?thesis by blast
qed

text \<open>The worker of the pipeline returns its result under the id of the segment.\<close>

lemma translate_single_segment_keeps_id:
  "translate_single_segment env segment segment_context st = Inr (r, st')
   \<Longrightarrow> segment_id r = seg_id segment"
  by (auto simp: translate_single_segment_def Let_def
      split: sum.splits option.splits prod.splits if_splits)

lemma successes_ids:
  assumes "\<forall>s c r. worker s c = Inr r \<longrightarrow> segment_id r = seg_id s"
  shows "distinct (map seg_id segments)
     \<Longrightarrow> distinct (map segment_id (successes (futures_of worker ctxs segments)))
        \<and> set (map segment_id (successes (futures_of worker ctxs segments)))
            \<subseteq> set (map seg_id segments)"
proof (induction segments)
  case Nil
  then show ?case by (simp add: successes_def futures_of_def)
next
  case (Cons s segments)
  show ?case
  proof (cases "worker s (context_of ctxs s)")
    case (Inl e)
    then show ?thesis using Cons by (auto simp: successes_def futures_of_def)
  next
    case (Inr r)
    then have "segment_id r = seg_id s" using assms by blast
    then show ?thesis using Cons Inr by (auto simp: successes_def futures_of_def)
  qed
qed

lemma fallback_hello: "fallback_translation (\<lambda>w. None) (py ''hello'') = py ''[hello]''"
  by (simp add: fallback_translation_def fallback_word_def py_split_def is_space_def py_def)

lemma flaky_perform:
  "perform_translation flaky_env (py ''hello'') GPT_35_TURBO fresh_state
     = (py ''[hello]'', fresh_state\<lparr>api_calls := 1\<rparr>)"
  by (simp add: perform_translation_def flaky_env_def flaky_api_def fresh_state_def fallback_hello)

lemma flaky_segment:
  "translate_single_segment flaky_env hello_segment None fresh_state
     = Inr (\<lparr>segment_id = 1, original_text = py ''hello'', translated_text = py ''[hello]'',
             model_used = py ''gpt-3.5-turbo'', confidence = 0.9, complexity_score = 0,
             cached = False, cost_estimate = 13 / 4000000\<rparr>,
            \<lparr>cache = \<lparr>memory_cache = [py ''ddabcc86390baafdb869e908be01cb34'' \<mapsto> py ''[hello]''],
                       hits = 0, misses = 1, sets = 1\<rparr>,
             stats = \<lparr>total_segments = 0, cached_segments = 0, gpt35_segments = 1,
                       gpt4_segments = 0, local_segments = 0, total_cost = 13 / 4000000\<rparr>,
             api_calls = 1\<rparr>)"
proof -
  have cost: "estimate_cost (py ''hello'') (py ''[hello]'') GPT_35_TURBO = 13 / 4000000"
    by (simp add: estimate_cost_def py_def)
  show ?thesis
    unfolding translate_single_segment_def flaky_env_def hello_segment_def fresh_state_def
      empty_cache_def
    by (simp add: cache_get_def cache_set_def key_hello_lookup key_hello_store hello_complexity
        hello_model perform_translation_def flaky_api_def fallback_hello cost count_model_def
        Let_def del: model_value.simps) simp
qed

lemma worker_run:
  "translate_segments_with_context 10 failing_worker rev []
      [segment_numbered 1, segment_numbered 2, segment_numbered 3]
     = Inr [plain_result (segment_numbered 1), plain_result (segment_numbered 3)]"
  by (simp add: translate_segments_with_context_def segment_context_for_def failing_worker_def
      segment_numbered_def plain_result_def)

lemma utf8_encode_append:
  "utf8_encode (a @ b) =
     (case utf8_encode a of None \<Rightarrow> None
      | Some x \<Rightarrow> (case utf8_encode b of None \<Rightarrow> None | Some y \<Rightarrow> Some (x @ y)))"
  by (induction a) (auto split: option.splits)

lemma utf8_model_value: "\<exists>bs. utf8_encode (model_value m) = Some bs"
  by (cases m) (simp_all add: py_def utf8_char_def)

lemma store_key_exists:
  assumes "generate_cache_key text context [] = Inr k"
  shows "\<exists>k'. generate_cache_key text context (model_value m) = Inr k'"
proof -
  obtain bs where bs: "utf8_encode (model_value m) = Some bs"
    using utf8_model_value by blast
  from assms obtain pre where pre: "utf8_encode (text @ py ''|'' @ context @ py ''|'') = Some pre"
    by (auto simp: generate_cache_key_def Let_def split: option.splits)
  have "utf8_encode ((text @ py ''|'' @ context @ py ''|'') @ model_value m) = Some (pre @ bs)"
    using pre bs by (simp only: utf8_encode_append option.case)
  then show ?thesis
    by (simp add: generate_cache_key_def Let_def)
qed

lemma perform_failed_call:
  "client env = Some api \<Longrightarrow> api (api_calls st) = Inl e
   \<Longrightarrow> perform_translation env text model st
       = (fallback_translation (find_term env) text, st\<lparr>api_calls := api_calls st + 1\<rparr>)"
  by (simp add: perform_translation_def)

lemma segment_failed_call:
  assumes "client env = Some api" and "api (api_calls st) = Inl e"
    and "cache_get (cache st) (seg_text segment) (context_string env segment_context) []
           = Inr (None, c1)"
  shows "\<exists>r st'. translate_single_segment env segment segment_context st = Inr (r, st')
        \<and> segment_id r = seg_id segment
        \<and> translated_text r = fallback_translation (find_term env) (seg_text segment)
        \<and> \<not> cached r
        \<and> api_calls st' = api_calls st + 1"
proof -
  let ?text = "seg_text segment"
  let ?ctx = "context_string env segment_context"
  let ?model = "select_model (calculate_complexity ?text segment_context) segment_context"
  from assms(3) obtain k where "generate_cache_key ?text ?ctx [] = Inr k"
    by (auto simp: cache_get_def split: sum.splits)
  then obtain k' where k': "generate_cache_key ?text ?ctx (model_value ?model) = Inr k'"
    using store_key_exists by blast
  have perform: "perform_translation env ?text ?model (st\<lparr>cache := c1\<rparr>)
       = (fallback_translation (find_term env) ?text, st\<lparr>cache := c1, api_calls := api_calls st + 1\<rparr>)"
    using assms(1,2) by (simp add: perform_translation_def)
  show ?thesis
    using assms(3) perform k'
    by (simp add: translate_single_segment_def context_string_def [symmetric] Let_def
        cache_set_def del: model_value.simps)
qed

lemma returned_results_kept:
  assumes "0 < bsize"
    and "\<forall>s \<in> set segments. lookup_in_range ctxs s"
    and "\<forall>fs. mset (as_completed fs) = mset fs"
  shows "\<exists>results. translate_segments_with_context bsize worker as_completed ctxs segments
            = Inr results
        \<and> (\<forall>s \<in> set segments. \<forall>r. worker s (context_of ctxs s) = Inr r \<longrightarrow> r \<in> set results)"
proof -
  from translate_segments_mset [OF assms, of worker]
  obtain results where
    r: "translate_segments_with_context bsize worker as_completed ctxs segments = Inr results"
    and m: "mset results = mset (successes (futures_of worker ctxs segments))"
    by blast
  have "set results = set (successes (futures_of worker ctxs segments))"
    using m by (rule mset_eq_setD)
  moreover have "r \<in> set (successes (futures_of worker ctxs segments))"
    if "s \<in> set segments" and "worker s (context_of ctxs s) = Inr r" for s r
  proof -
    have "Inr r \<in> set (futures_of worker ctxs segments)"
      using that by (force simp: futures_of_def)
    then show ?thesis by (force simp: successes_def)
  qed
  ultimately show ?thesis using r by blast
qed

lemma submit_batch_out_of_range:
  "\<exists>s \<in> set batch. \<not> lookup_in_range ctxs s
   \<Longrightarrow> submit_batch worker ctxs batch = Inl IndexError"
proof (induction batch)
  case Nil
  then show ?case by simp
next
  case (Cons s batch)
  show ?case
  proof (cases "lookup_in_range ctxs s")
    case True
    then have "\<exists>s \<in> set batch. \<not> lookup_in_range ctxs s" using Cons.prems by auto
    then show ?thesis using Cons.IH True by (simp add: segment_context_in_range)
  next
    case False
    then show ?thesis by (simp add: segment_context_out_of_range)
  qed
qed

lemma run_batches_out_of_range:
  "\<exists>s \<in> set (concat batches). \<not> lookup_in_range ctxs s
   \<Longrightarrow> run_batches worker as_completed ctxs batches acc = Inl IndexError"
proof (induction batches arbitrary: acc)
  case Nil
  then show ?case by simp
next
  case (Cons batch batches)
  show ?case
  proof (cases "\<forall>s \<in> set batch. lookup_in_range ctxs s")
    case True
    then have "\<exists>s \<in> set (concat batches). \<not> lookup_in_range ctxs s"
      using Cons.prems by auto
    then show ?thesis
      using Cons.IH submit_batch_in_range [OF True, of worker] by simp
  next
    case False
    then show ?thesis using submit_batch_out_of_range [of batch ctxs worker] by simp
  qed
qed

lemma lookup_out_of_range_aborts:
  assumes "0 < bsize" and "\<exists>s \<in> set segments. \<not> lookup_in_range ctxs s"
  shows "translate_segments_with_context bsize worker as_completed ctxs segments = Inl IndexError"
proof -
  have "concat (chunks (nat bsize) segments) = segments"
    using assms(1) by (intro concat_chunks) simp
  then have "run_batches worker as_completed ctxs (chunks (nat bsize) segments) [] = Inl IndexError"
    using assms(2) by (intro run_batches_out_of_range) simp
  then show ?thesis using assms(1) by (simp add: translate_segments_with_context_def)
qed

text \<open>
  C8 amended. When the external call for a segment fails, \<^verbatim>\<open>_perform_translation\<close> makes
  that one request only and returns the fallback translation. When the cache lookup for
  the segment missed, the segment is returned as an ordinary, uncached result carrying
  that text, after exactly one request. An exception raised by the worker of a segment
  does not end the job: for a positive batch size and context lookups inside the list,
  whatever happens to other segments, \<^verbatim>\<open>_translate_segments_with_context\<close> returns a list
  that holds the result of every segment whose worker returned one. The job is ended, and
  the results obtained so far are lost, by a batch size of 0 (\<^verbatim>\<open>ValueError\<close>) and by a
  segment whose context index lies before the start of the context list
  (\<^verbatim>\<open>IndexError\<close>), whatever the workers do. With a negative batch size no segment is
  processed and the list is empty.
\<close>

theorem failed_call_falls_back_without_retry:
  "(client env = Some api \<and> api (api_calls st) = Inl e \<longrightarrow>
      perform_translation env text model st
        = (fallback_translation (find_term env) text, st\<lparr>api_calls := api_calls st + 1\<rparr>))
   \<and> (client env = Some api \<and> api (api_calls st) = Inl e
       \<and> cache_get (cache st) (seg_text segment) (context_string env segment_context) []
           = Inr (None, c1) \<longrightarrow>
      (\<exists>r st'. translate_single_segment env segment segment_context st = Inr (r, st')
        \<and> segment_id r = seg_id segment
        \<and> translated_text r = fallback_translation (find_term env) (seg_text segment)
        \<and> \<not> cached r
        \<and> api_calls st' = api_calls st + 1))
   \<and> (0 < bsize \<and> (\<forall>s \<in> set segments. lookup_in_range ctxs s)
       \<and> (\<forall>fs. mset (as_completed fs) = mset fs) \<longrightarrow>
      (\<exists>results. translate_segments_with_context bsize worker as_completed ctxs segments
            = Inr results
        \<and> (\<forall>s \<in> set segments. \<forall>r. worker s (context_of ctxs s) = Inr r
              \<longrightarrow> r \<in> set results)))
   \<and> translate_segments_with_context 0 worker as_completed ctxs segments = Inl ValueError
   \<and> (0 < bsize \<and> (\<exists>s \<in> set segments. \<not> lookup_in_range ctxs s) \<longrightarrow>
        translate_segments_with_context bsize worker as_completed ctxs segments
          = Inl IndexError)
   \<and> (bsize < 0 \<longrightarrow>
        translate_segments_with_context bsize worker as_completed ctxs segments = Inr [])"
proof (intro conjI impI)
  assume "client env = Some api \<and> api (api_calls st) = Inl e"
  then show "perform_translation env text model st
        = (fallback_translation (find_term env) text, st\<lparr>api_calls := api_calls st + 1\<rparr>)"
    using perform_failed_call [of env api st e _ model] by simp
next
  assume "client env = Some api \<and> api (api_calls st) = Inl e
       \<and> cache_get (cache st) (seg_text segment) (context_string env segment_context) []
           = Inr (None, c1)"
  then show "\<exists>r st'. translate_single_segment env segment segment_context st = Inr (r, st')
        \<and> segment_id r = seg_id segment
        \<and> translated_text r = fallback_translation (find_term env) (seg_text segment)
        \<and> \<not> cached r
        \<and> api_calls st' = api_calls st + 1"
    using segment_failed_call [of env api st e segment segment_context c1] by simp
next
  assume "0 < bsize \<and> (\<forall>s \<in> set segments. lookup_in_range ctxs s)
       \<and> (\<forall>fs. mset (as_completed fs) = mset fs)"
  then show "\<exists>results. translate_segments_with_context bsize worker as_completed ctxs segments
            = Inr results
        \<and> (\<forall>s \<in> set segments. \<forall>r. worker s (context_of ctxs s) = Inr r
              \<longrightarrow> r \<in> set results)"
    using returned_results_kept [of bsize segments ctxs as_completed worker] by simp
next
  show "translate_segments_with_context 0 worker as_completed ctxs segments = Inl ValueError"
    by (simp add: translate_segments_with_context_def)
next
  assume "0 < bsize \<and> (\<exists>s \<in> set segments. \<not> lookup_in_range ctxs s)"
  then show "translate_segments_with_context bsize worker as_completed ctxs segments
          = Inl IndexError"
    using lookup_out_of_range_aborts [of bsize segments ctxs worker as_completed] by simp
next
  assume "bsize < 0"
  then show "translate_segments_with_context bsize worker as_completed ctxs segments = Inr []"
    by (simp add: translate_segments_with_context_def)
qed

text \<open>
  C9 amended. For a positive batch size and context lookups inside the list, whatever
  order the futures complete in, the returned list is sorted by segment id and consists of
  exactly the results of the workers that returned, each once; when the input ids are
  distinct and every result carries the id of its segment, the ids are strictly
  increasing. Segments whose worker raised are left out.
\<close>

theorem results_sorted_and_complete:
  assumes "0 < bsize"
    and "\<forall>s \<in> set segments. lookup_in_range ctxs s"
    and "\<forall>fs. mset (as_completed fs) = mset fs"
  shows "\<exists>results. translate_segments_with_context bsize worker as_completed ctxs segments
            = Inr results
        \<and> sorted (map segment_id results)
        \<and> mset results = mset (successes (futures_of worker ctxs segments))
        \<and> ((\<forall>s c r. worker s c = Inr r \<longrightarrow> segment_id r = seg_id s)
             \<and> distinct (map seg_id segments)
             \<longrightarrow> sorted_wrt (<) (map segment_id results))"
proof -
  from translate_segments_mset [OF assms, of worker]
  obtain results where
    r: "translate_segments_with_context bsize worker as_completed ctxs segments = Inr results"
    and m: "mset results = mset (successes (futures_of worker ctxs segments))"
    and s: "sorted (map segment_id results)"
    by blast
  have "sorted_wrt (<) (map segment_id results)"
    if ids: "\<forall>s c r. worker s c = Inr r \<longrightarrow> segment_id r = seg_id s"
      and d: "distinct (map seg_id segments)"
  proof -
    have "distinct (map segment_id (successes (futures_of worker ctxs segments)))"
      using successes_ids [OF ids d] by blast
    moreover have "mset (map segment_id results)
        = mset (map segment_id (successes (futures_of worker ctxs segments)))"
      using m by simp
    ultimately have "distinct (map segment_id results)"
      using mset_eq_imp_distinct_iff by blast
    then show ?thesis using s by (simp add: strict_sorted_iff)
  qed
  then show ?thesis using r m s by blast
qed

lemma flaky_segment':
  "translate_single_segment flaky_env hello_segment None fresh_state
     = Inr (flaky_result, flaky_state)"
  using flaky_segment by (simp add: flaky_result_def flaky_state_def)

lemma worker_run':
  "translate_segments_with_context 10 failing_worker rev [] three_segments
     = Inr [plain_result (segment_numbered 1), plain_result (segment_numbered 3)]"
  using worker_run by (simp add: three_segments_def)

lemma fresh_lookup_misses:
  "cache_get (cache fresh_state) (seg_text hello_segment) (context_string flaky_env None) []
     = Inr (None, empty_cache\<lparr>misses := 1\<rparr>)"
  by (simp add: cache_get_def fresh_state_def hello_segment_def context_string_def
      key_hello_lookup empty_cache_def)

lemma three_in_range: "\<forall>s \<in> set three_segments. lookup_in_range [] s"
  by (simp add: three_segments_def lookup_in_range_def segment_numbered_def)

text \<open>
  C8 as stated fails: there is no retry. A client whose first request raises and whose
  every later request would succeed is asked once; the segment gets the dictionary
  fallback translation, and is returned as an ordinary result that is stored in the cache
  and charged, with nothing marking it as failed.
\<close>

theorem failed_call_retry_counterexample:
  "flaky_api 0 = Inl APIError
   \<and> flaky_api 1 = Inr (py ''price goes up'')
   \<and> perform_translation flaky_env (py ''hello'') GPT_35_TURBO fresh_state
       = (py ''[hello]'', fresh_state\<lparr>api_calls := 1\<rparr>)
   \<and> translate_single_segment flaky_env hello_segment None fresh_state
       = Inr (flaky_result, flaky_state)
   \<and> translated_text flaky_result = py ''[hello]''
   \<and> api_calls flaky_state = 1"
  using flaky_perform flaky_segment'
  by (simp add: flaky_api_def flaky_result_def flaky_state_def)

theorem failed_call_falls_back_without_retry_witness:
  "client flaky_env = Some flaky_api
   \<and> flaky_api (api_calls fresh_state) = Inl APIError
   \<and> perform_translation flaky_env (py ''hello'') GPT_35_TURBO fresh_state
       = (fallback_translation (find_term flaky_env) (py ''hello''),
          fresh_state\<lparr>api_calls := api_calls fresh_state + 1\<rparr>)
   \<and> (\<exists>r st'. translate_single_segment flaky_env hello_segment None fresh_state = Inr (r, st')
        \<and> segment_id r = seg_id hello_segment
        \<and> translated_text r = fallback_translation (find_term flaky_env) (seg_text hello_segment)
        \<and> \<not> cached r
        \<and> api_calls st' = api_calls fresh_state + 1)
   \<and> (\<exists>results. translate_segments_with_context 10 failing_worker rev [] three_segments
            = Inr results
        \<and> (\<forall>s \<in> set three_segments. \<forall>r. failing_worker s (context_of [] s) = Inr r
              \<longrightarrow> r \<in> set results))
   \<and> translate_segments_with_context 0 failing_worker rev [] three_segments = Inl ValueError
   \<and> translate_segments_with_context 10 failing_worker rev []
        [segment_numbered 1, segment_numbered 0, segment_numbered 3] = Inl IndexError
   \<and> translate_segments_with_context (- 1) failing_worker rev [] three_segments = Inr []"
proof -
  have h1: "client flaky_env = Some flaky_api"
    by (simp add: flaky_env_def)
  have h2: "flaky_api (api_calls fresh_state) = Inl APIError"
    by (simp add: flaky_api_def fresh_state_def)
  have h3: "(0::int) < 10" by simp
  have h4: "\<forall>fs :: future list. mset (rev fs) = mset fs" by simp
  have h5: "\<exists>s \<in> set [segment_numbered 1, segment_numbered 0, segment_numbered 3].
      \<not> lookup_in_range [] s"
    by (simp add: lookup_in_range_def segment_numbered_def)
  from failed_call_falls_back_without_retry
    [of flaky_env flaky_api fresh_state APIError "py ''hello''" GPT_35_TURBO hello_segment None
        "empty_cache\<lparr>misses := 1\<rparr>" 10 three_segments "[]" rev failing_worker]
    h1 h2 h3 h4 fresh_lookup_misses three_in_range
  have first: "perform_translation flaky_env (py ''hello'') GPT_35_TURBO fresh_state
       = (fallback_translation (find_term flaky_env) (py ''hello''),
          fresh_state\<lparr>api_calls := api_calls fresh_state + 1\<rparr>)
   \<and> (\<exists>r st'. translate_single_segment flaky_env hello_segment None fresh_state = Inr (r, st')
        \<and> segment_id r = seg_id hello_segment
        \<and> translated_text r = fallback_translation (find_term flaky_env) (seg_text hello_segment)
        \<and> \<not> cached r
        \<and> api_calls st' = api_calls fresh_state + 1)
   \<and> (\<exists>results. translate_segments_with_context 10 failing_worker rev [] three_segments
            = Inr results
        \<and> (\<forall>s \<in> set three_segments. \<forall>r. failing_worker s (context_of [] s) = Inr r
              \<longrightarrow> r \<in> set results))
   \<and> translate_segments_with_context 0 failing_worker rev [] three_segments = Inl ValueError"
    by blast
  from failed_call_falls_back_without_retry
    [of _ _ _ _ _ _ _ _ _ 10 "[segment_numbered 1, segment_numbered 0, segment_numbered 3]"
        "[]" rev failing_worker]
    h3 h5
  have second: "translate_segments_with_context 10 failing_worker rev []
        [segment_numbered 1, segment_numbered 0, segment_numbered 3] = Inl IndexError"
    by blast
  from failed_call_falls_back_without_retry
    [of _ _ _ _ _ _ _ _ _ "- 1" three_segments "[]" rev failing_worker]
  have third: "translate_segments_with_context (- 1) failing_worker rev [] three_segments = Inr []"
    by simp
  show ?thesis using h1 h2 first second third by blast
qed

text \<open>
  C9 as stated fails: of three segments, the worker of segment 2 raises. The returned list
  holds the results of segments 1 and 3 in increasing order although the futures completed
  in reverse order, and nothing in it mentions segment 2: a \<^verbatim>\<open>TranslationResult\<close> has no
  failure marker and the exception is only logged.
\<close>

theorem failed_segment_dropped_counterexample:
  "failing_worker (segment_numbered 2) None = Inl APIError
   \<and> translate_segments_with_context 10 failing_worker rev [] three_segments
       = Inr [plain_result (segment_numbered 1), plain_result (segment_numbered 3)]
   \<and> map segment_id [plain_result (segment_numbered 1), plain_result (segment_numbered 3)]
       = [1, 3]"
  using worker_run'
  by (simp add: failing_worker_def segment_numbered_def plain_result_def)

theorem results_sorted_and_complete_witness:
  "(0::int) < 10
   \<and> list_all (lookup_in_range []) three_segments
   \<and> distinct (map seg_id three_segments)
   \<and> (\<exists>results. translate_segments_with_context 10 failing_worker rev [] three_segments
            = Inr results
        \<and> sorted (map segment_id results)
        \<and> mset results = mset (successes (futures_of failing_worker [] three_segments))
        \<and> sorted_wrt (<) (map segment_id results))"
proof -
  have h1: "(0::int) < 10" by simp
  have h3: "\<forall>fs :: future list. mset (rev fs) = mset fs" by simp
  have h4: "\<forall>s c r. failing_worker s c = Inr r \<longrightarrow> segment_id r = seg_id s"
    by (auto simp: failing_worker_def plain_result_def split: if_splits)
  have h5: "distinct (map seg_id three_segments)"
    by (simp add: three_segments_def segment_numbered_def)
  from results_sorted_and_complete [OF h1 three_in_range h3, of failing_worker] h4 h5
  obtain results where
    "translate_segments_with_context 10 failing_worker rev [] three_segments = Inr results
     \<and> sorted (map segment_id results)
     \<and> mset results = mset (successes (futures_of failing_worker [] three_segments))
     \<and> sorted_wrt (<) (map segment_id results)"
    by blast
  then show ?thesis using h1 three_in_range h5 by (auto simp: list_all_iff)
qed

section \<open>SRT generation: properties\<close>

lemma fold_translation_map:
  "fold (\<lambda>t m. m(segment_id t \<mapsto> t)) ts m k =
     (case filter (\<lambda>t. segment_id t = k) ts of [] \<Rightarrow> m k | t # ts' \<Rightarrow> Some (last (t # ts')))"
proof (induction ts arbitrary: m)
  case Nil
  then show ?case by simp
next
  case (Cons t ts)
  show ?case
  proof (cases "segment_id t = k")
    case True
    then show ?thesis using Cons [of "m(segment_id t \<mapsto> t)"]
      by (auto split: list.splits)
  next
    case False
    then show ?thesis using Cons [of "m(segment_id t \<mapsto> t)"]
      by (auto split: list.splits)
  qed
qed

lemma translation_map_lookup:
  "translation_map translations k =
     (case filter (\<lambda>t. segment_id t = k) translations of
        [] \<Rightarrow> None | t # ts \<Rightarrow> Some (last (t # ts)))"
  by (simp add: translation_map_def fold_translation_map)

lemma srt_loop_acc:
  "srt_loop m segments acc =
     acc @ map (\<lambda>s. case m (seg_id s) of
                       Some t \<Rightarrow> to_srt s (translated_text t)
                     | None \<Rightarrow> to_srt s (py ''['' @ seg_text s @ py '']'')) segments"
  by (induction segments arbitrary: acc) (auto split: option.splits)

lemma srt_entry_lookup:
  "(case translation_map translations (seg_id s) of
      Some t \<Rightarrow> to_srt s (translated_text t)
    | None \<Rightarrow> to_srt s (py ''['' @ seg_text s @ py '']'')) = srt_entry translations s"
  by (simp add: translation_map_lookup srt_entry_def split: list.splits)

lemma srt_loop_map:
  "srt_loop (translation_map translations) segments acc
     = acc @ map (srt_entry translations) segments"
  by (simp add: srt_loop_acc srt_entry_lookup)

text \<open>
  C10. \<^verbatim>\<open>generate_srt\<close> builds exactly one SRT entry per input segment, in the order
  of the segments; a segment whose id no translation result has is rendered with its
  original text in square brackets; when writing the file raises, the function returns
  \<^verbatim>\<open>False\<close> (and \<^verbatim>\<open>True\<close> when writing succeeds).
\<close>

theorem generate_srt_one_entry_per_segment:
  "srt_content segments translations = map (srt_entry translations) segments
   \<and> length (srt_content segments translations) = length segments
   \<and> (\<forall>s \<in> set segments. seg_id s \<notin> segment_id ` set translations \<longrightarrow>
         srt_entry translations s = to_srt s (py ''['' @ seg_text s @ py '']''))
   \<and> (\<forall>e. write_file (py_join [10] (srt_content segments translations)) = Inl e \<longrightarrow>
         generate_srt segments translations write_file = False)
   \<and> (write_file (py_join [10] (srt_content segments translations)) = Inr () \<longrightarrow>
         generate_srt segments translations write_file = True)"
proof -
  have content: "srt_content segments translations = map (srt_entry translations) segments"
    by (simp add: srt_content_def srt_loop_map)
  have missing: "srt_entry translations s = to_srt s (py ''['' @ seg_text s @ py '']'')"
    if "seg_id s \<notin> segment_id ` set translations" for s
  proof -
    have "\<forall>t \<in> set translations. segment_id t \<noteq> seg_id s"
      using that by (metis imageI)
    then have "filter (\<lambda>t. segment_id t = seg_id s) translations = []"
      by (simp add: filter_empty_conv)
    then show ?thesis by (simp add: srt_entry_def)
  qed
  show ?thesis
    using missing by (simp add: content generate_srt_def generate_srt_body_def)
qed

lemma timestamp_examples:
  "to_srt_timestamp 0 = py ''00:00:00,000''"
  "to_srt_timestamp (7 / 2) = py ''00:00:03,500''"
  "to_srt_timestamp (14901 / 4) = py ''01:02:05,250''"
  by (simp_all add: to_srt_timestamp_def py_fmod_def format_d_def zero_pad_def str_nat.simps
      py_def replicate_num)

theorem generate_srt_one_entry_per_segment_witness:
  "srt_content two_segments one_translation =
     [py ''1'' @ [10] @ py ''00:00:00,000 --> 00:00:03,500'' @ [10] @ py ''Hello'' @ [10],
      py ''2'' @ [10] @ py ''00:00:03,500 --> 01:02:05,250'' @ [10] @ py ''[trend]'' @ [10]]
   \<and> length (srt_content two_segments one_translation) = length two_segments
   \<and> generate_srt two_segments one_translation (\<lambda>content. Inl OSError) = False
   \<and> generate_srt two_segments one_translation (\<lambda>content. Inr ()) = True"
proof -
  have entries: "map (srt_entry one_translation) two_segments =
     [py ''1'' @ [10] @ py ''00:00:00,000 --> 00:00:03,500'' @ [10] @ py ''Hello'' @ [10],
      py ''2'' @ [10] @ py ''00:00:03,500 --> 01:02:05,250'' @ [10] @ py ''[trend]'' @ [10]]"
    by (simp add: srt_entry_def two_segments_def one_translation_def to_srt_def
        timestamp_examples str_int_def str_nat.simps) (simp add: py_def)
  from generate_srt_one_entry_per_segment
    [of two_segments one_translation "\<lambda>content. Inl OSError"]
    generate_srt_one_entry_per_segment
    [of two_segments one_translation "\<lambda>content. Inr ()"]
    entries
  show ?thesis by simp
qed

section \<open>Checkpoints and resuming: properties\<close>

lemma map_of_put_file: "map_of (put_file p f d) q = (if q = p then Some f else map_of d q)"
proof -
  have "map_of (filter (\<lambda>e. fst e \<noteq> p) d) q = map_of d q" if "q \<noteq> p"
    using that by (induction d) auto
  then show ?thesis by (simp add: put_file_def)
qed

lemma map_of_replace:
  assumes "a \<noteq> b" and "map_of d a = Some f"
  shows "map_of (map (\<lambda>e. if fst e = a then (b, snd e) else e) (filter (\<lambda>e. fst e \<noteq> b) d)) b
           = Some f"
  using assms by (induction d) (auto split: if_splits)

lemma paths_differ: "temp_file \<noteq> checkpoint_file"
  by (simp add: temp_file_def checkpoint_file_def)

lemma apply_on_temp:
  "on_temp s \<Longrightarrow> map_of (apply_step s d) checkpoint_file = map_of d checkpoint_file"
  using paths_differ
  by (cases s) (auto simp: map_of_put_file split: option.splits file_content.splits)

lemma run_on_temp:
  "\<forall>s \<in> set steps. on_temp s
   \<Longrightarrow> map_of (run_steps steps d) checkpoint_file = map_of d checkpoint_file"
  unfolding run_steps_def
  by (induction steps arbitrary: d) (simp_all add: apply_on_temp)

lemma chunks_keep_prefix:
  "map_of d temp_file = Some (Prefix v k)
   \<Longrightarrow> \<exists>k'. map_of (run_steps (map (WriteChunk temp_file) pieces) d) temp_file
               = Some (Prefix v k')"
  unfolding run_steps_def
  by (induction pieces arbitrary: d k) (simp_all add: map_of_put_file)

lemma run_steps_append: "run_steps (xs @ ys) d = run_steps ys (run_steps xs d)"
  by (simp add: run_steps_def)

lemma run_steps_Cons: "run_steps (x # xs) d = run_steps xs (apply_step x d)"
  by (simp add: run_steps_def)

lemma save_completed:
  "load_checkpoint (run_steps (save_checkpoint new pieces) d) = Some new"
proof -
  let ?d1 = "apply_step (OpenW temp_file new) d"
  have "map_of ?d1 temp_file = Some (Prefix new 0)"
    by (simp add: map_of_put_file)
  from chunks_keep_prefix [OF this, of pieces] obtain k where
    k: "map_of (run_steps (map (WriteChunk temp_file) pieces) ?d1) temp_file = Some (Prefix new k)"
    by blast
  let ?d2 = "run_steps (map (WriteChunk temp_file) pieces) ?d1"
  let ?d3 = "apply_step (WriteRest temp_file) ?d2"
  have d3: "map_of ?d3 temp_file = Some (Document new)"
    using k by (simp add: map_of_put_file)
  have "map_of (apply_step (Replace temp_file checkpoint_file) ?d3) checkpoint_file
          = Some (Document new)"
    using d3 paths_differ by (simp add: map_of_replace)
  then show ?thesis
    by (simp add: save_checkpoint_def run_steps_append run_steps_Cons load_checkpoint_def
        run_steps_def)
qed

lemma take_all_prefix: "k \<le> length xs \<Longrightarrow> take k (xs @ ys) = take k xs"
  by simp

lemma save_checkpoint_atomic:
  "load_checkpoint (crash_after k (save_checkpoint new pieces) d) = load_checkpoint d
   \<or> load_checkpoint (crash_after k (save_checkpoint new pieces) d) = Some new"
proof (cases "k < length (save_checkpoint new pieces)")
  case True
  let ?writes = "OpenW temp_file new # map (WriteChunk temp_file) pieces @ [WriteRest temp_file]"
  have split: "save_checkpoint new pieces = ?writes @ [Replace temp_file checkpoint_file]"
    by (simp add: save_checkpoint_def)
  have short: "k \<le> length ?writes"
    using True unfolding split by simp
  have "take k (?writes @ [Replace temp_file checkpoint_file]) = take k ?writes"
    using short by (rule take_all_prefix)
  then have "take k (save_checkpoint new pieces) = take k ?writes"
    by (simp only: split)
  moreover have "\<forall>s \<in> set (take k ?writes). on_temp s"
  proof
    fix s assume "s \<in> set (take k ?writes)"
    then have "s \<in> set ?writes" by (rule in_set_takeD)
    then show "on_temp s" by auto
  qed
  ultimately have "map_of (crash_after k (save_checkpoint new pieces) d) checkpoint_file
      = map_of d checkpoint_file"
    by (simp add: crash_after_def run_on_temp)
  then show ?thesis by (simp add: load_checkpoint_def)
next
  case False
  then have "crash_after k (save_checkpoint new pieces) d
      = run_steps (save_checkpoint new pieces) d"
    by (simp add: crash_after_def)
  then show ?thesis by (simp add: save_completed)
qed

lemma kaggle_steps:
  "kaggle_save_checkpoint 2 (py ''ep-01'')
      [kaggle_segment 0, kaggle_segment 1, kaggle_segment 2, kaggle_segment 3] (Some 4) False
      [100, 100] = Inr saving_four"
  by (simp add: kaggle_save_checkpoint_def saving_four_def checkpoint_of_four_def
      kaggle_segment_def Let_def)

text \<open>
  C2 on the code: the Kaggle manager writes its checkpoint file in place. A directory holds
  the checkpoint of two segments; the checkpoint of four is being saved when the process
  is killed after the file was opened and one piece written. The newest checkpoint file is
  then a fragment, and loading raises instead of returning the old record or the new one.
  (The manager of the transcription script does replace its file in one step:
  \<open>save_checkpoint_atomic\<close>.)
\<close>

theorem kaggle_crash_leaves_unparsable_checkpoint:
  "kaggle_load_checkpoint kaggle_dir = Inr checkpoint_of_two
   \<and> kaggle_save_checkpoint 2 (py ''ep-01'')
        [kaggle_segment 0, kaggle_segment 1, kaggle_segment 2, kaggle_segment 3] (Some 4) False
        [100, 100] = Inr saving_four
   \<and> crash_after 2 saving_four kaggle_dir
        = [(CheckpointFile 4, Prefix checkpoint_of_four 100),
           (CheckpointFile 2, Document checkpoint_of_two)]
   \<and> kaggle_load_checkpoint (crash_after 2 saving_four kaggle_dir) = Inl JSONDecodeError
   \<and> kaggle_load_checkpoint (run_steps saving_four kaggle_dir) = Inr checkpoint_of_four"
proof -
  have crash: "crash_after 2 saving_four kaggle_dir
        = [(CheckpointFile 4, Prefix checkpoint_of_four 100),
           (CheckpointFile 2, Document checkpoint_of_two)]"
    by (simp add: crash_after_def run_steps_def saving_four_def kaggle_dir_def put_file_def)
  have full: "run_steps saving_four kaggle_dir
        = [(CheckpointFile 4, Document checkpoint_of_four),
           (CheckpointFile 2, Document checkpoint_of_two)]"
    by (simp add: run_steps_def saving_four_def kaggle_dir_def put_file_def)
  show ?thesis
    unfolding crash full
    by (simp add: kaggle_steps kaggle_load_checkpoint_def kaggle_dir_def read_json_def)
qed

lemma and_then_simps [simp]:
  "and_then (Inr x) f = f x"
  "and_then (Inl e) f = Inl e"
  by (simp_all add: and_then_def)

lemma run_loop_append:
  "run_loop s res r (xs @ ys) st = and_then (run_loop s res r xs st) (run_loop s res r ys)"
  by (induction xs arbitrary: st) (auto simp: and_then_def split: sum.splits)

lemma ls_segments_record: "ls_segments (record_segment seg st) = ls_segments st @ [seg]"
  by (simp add: record_segment_def split: option.splits)

lemma ls_checkpoint_record: "ls_checkpoint (record_segment seg st) = ls_checkpoint st"
  by (simp add: record_segment_def split: option.splits)

lemma ls_tracker_record: "ls_tracker (record_segment seg st) = ls_tracker st"
  by (simp add: record_segment_def split: option.splits)

lemma ls_segments_checkpoint: "ls_segments (checkpoint_now s i seg st) = ls_segments st"
  by (simp add: checkpoint_now_def)

lemma track_progress_cases:
  "track_progress s res i seg st = Inr st'
   \<Longrightarrow> \<exists>t. st' = st\<lparr>ls_tracker := t\<rparr> \<and> total_duration t = total_duration (ls_tracker st)"
proof -
  assume a: "track_progress s res i seg st = Inr st'"
  show ?thesis
  proof (cases "i > 0")
    case True
    with a obtain t where
      u: "update (progress_bar s) (ls_tracker st)
            (rs_end seg - rs_end (wr_segments res ! (i - 1))) = Inr t"
      and st': "st' = st\<lparr>ls_tracker := t\<rparr>"
      by (auto simp: track_progress_def split: if_splits sum.splits)
    from u have "total_duration t = total_duration (ls_tracker st)"
      by (auto simp: update_def Let_def split: if_splits)
    with st' show ?thesis by blast
  next
    case False
    with a have "st' = st\<lparr>ls_tracker := ls_tracker st\<rparr>"
      by (simp add: track_progress_def)
    then show ?thesis by blast
  qed
qed

lemma track_progress_returns:
  assumes "progress_bar s \<or> total_duration (ls_tracker st) \<noteq> 0"
    and "i \<le> length (wr_segments res)"
  shows "\<exists>st'. track_progress s res i seg st = Inr st'"
  using assms by (auto simp: track_progress_def update_def Let_def)

lemma save_if_due_cases:
  "save_if_due s i seg st = Inr st' \<Longrightarrow> st' = st \<or> st' = checkpoint_now s i seg st"
  by (auto simp: save_if_due_def split: if_splits)

lemma save_if_due_returns:
  "\<not> use_checkpoints s \<or> checkpoint_interval s \<noteq> 0 \<Longrightarrow> \<exists>st'. save_if_due s i seg st = Inr st'"
  by (auto simp: save_if_due_def)

lemma loop_step_cases:
  assumes "loop_step s res r (i, seg) st = Inr st'"
  shows "(int i < r \<and> st' = st)
    \<or> (\<not> int i < r
       \<and> (\<exists>t. total_duration t = total_duration (ls_tracker st)
            \<and> (st' = (record_segment (make_segment i seg (start_time_offset s)) st)
                       \<lparr>ls_tracker := t\<rparr>
               \<or> st' = checkpoint_now s i seg
                         ((record_segment (make_segment i seg (start_time_offset s)) st)
                            \<lparr>ls_tracker := t\<rparr>))))"
proof (cases "int i < r")
  case True
  then show ?thesis using assms by simp
next
  case False
  let ?st2 = "record_segment (make_segment i seg (start_time_offset s)) st"
  from assms False obtain st3 where
    t: "track_progress s res i seg ?st2 = Inr st3" and d: "save_if_due s i seg st3 = Inr st'"
    by (auto simp: and_then_def split: sum.splits)
  from track_progress_cases [OF t] obtain tr where
    "st3 = ?st2\<lparr>ls_tracker := tr\<rparr>" "total_duration tr = total_duration (ls_tracker st)"
    by (auto simp: ls_tracker_record)
  then show ?thesis using save_if_due_cases [OF d] False by blast
qed

lemma loop_step_segments:
  "loop_step s res r item st = Inr st'
   \<Longrightarrow> ls_segments st' = ls_segments st @ produced s r [item]"
proof (cases item)
  case (Pair i seg)
  assume "loop_step s res r item st = Inr st'"
  then have c: "loop_step s res r (i, seg) st = Inr st'" using Pair by simp
  show ?thesis
  proof (cases "int i < r")
    case True
    then show ?thesis using c Pair by (simp add: produced_def)
  next
    case False
    then show ?thesis
      using loop_step_cases [OF c] Pair
      by (auto simp: produced_def ls_segments_record ls_segments_checkpoint)
  qed
qed

lemma loop_step_tracker:
  "loop_step s res r item st = Inr st'
   \<Longrightarrow> total_duration (ls_tracker st') = total_duration (ls_tracker st)"
proof (cases item)
  case (Pair i seg)
  assume "loop_step s res r item st = Inr st'"
  then have "loop_step s res r (i, seg) st = Inr st'" using Pair by simp
  from loop_step_cases [OF this] show ?thesis
    by (auto simp: checkpoint_now_def)
qed

lemma run_loop_segments:
  "run_loop s res r items st = Inr st'
   \<Longrightarrow> ls_segments st' = ls_segments st @ produced s r items"
proof (induction items arbitrary: st)
  case Nil
  then show ?case by (simp add: produced_def)
next
  case (Cons item items)
  from Cons.prems obtain st1 where
    s1: "loop_step s res r item st = Inr st1" and r1: "run_loop s res r items st1 = Inr st'"
    by (auto simp: and_then_def split: sum.splits)
  have "produced s r (item # items) = produced s r [item] @ produced s r items"
    by (simp add: produced_def)
  then show ?case
    using loop_step_segments [OF s1] Cons.IH [OF r1] by simp
qed

lemma run_loop_tracker:
  "run_loop s res r items st = Inr st'
   \<Longrightarrow> total_duration (ls_tracker st') = total_duration (ls_tracker st)"
proof (induction items arbitrary: st)
  case Nil
  then show ?case by simp
next
  case (Cons item items)
  from Cons.prems obtain st1 where
    s1: "loop_step s res r item st = Inr st1" and r1: "run_loop s res r items st1 = Inr st'"
    by (auto simp: and_then_def split: sum.splits)
  show ?case using loop_step_tracker [OF s1] Cons.IH [OF r1] by simp
qed

text \<open>
  The loop returns when the checkpoint interval is not zero and the progress line can be
  computed: there is a bar, or the total duration is not zero.
\<close>

lemma loop_step_returns:
  assumes "\<not> use_checkpoints s \<or> checkpoint_interval s \<noteq> 0"
    and "progress_bar s \<or> total_duration (ls_tracker st) \<noteq> 0"
    and "fst item \<le> length (wr_segments res)"
  shows "\<exists>st'. loop_step s res r item st = Inr st'"
proof (cases item)
  case (Pair i seg)
  let ?st2 = "record_segment (make_segment i seg (start_time_offset s)) st"
  from track_progress_returns [of s ?st2 i res seg] assms(2,3) Pair obtain st3 where
    t: "track_progress s res i seg ?st2 = Inr st3"
    by (auto simp: ls_tracker_record)
  from save_if_due_returns [OF assms(1), of i seg st3] obtain st4 where
    "save_if_due s i seg st3 = Inr st4" by blast
  then show ?thesis using t Pair by simp
qed

lemma run_loop_returns:
  assumes "\<not> use_checkpoints s \<or> checkpoint_interval s \<noteq> 0"
  shows "progress_bar s \<or> total_duration (ls_tracker st) \<noteq> 0
   \<Longrightarrow> \<forall>item \<in> set items. fst item \<le> length (wr_segments res)
   \<Longrightarrow> \<exists>st'. run_loop s res r items st = Inr st'"
proof (induction items arbitrary: st)
  case Nil
  then show ?case by simp
next
  case (Cons item items)
  from loop_step_returns [OF assms Cons.prems(1), of item res r] Cons.prems(2) obtain st1 where
    s1: "loop_step s res r item st = Inr st1" by auto
  have "progress_bar s \<or> total_duration (ls_tracker st1) \<noteq> 0"
    using Cons.prems(1) loop_step_tracker [OF s1] by simp
  from Cons.IH [OF this] Cons.prems(2) obtain st' where
    "run_loop s res r items st1 = Inr st'" by auto
  then show ?case using s1 by simp
qed

lemma enumerate_from_ids: "map fst (enumerate_from a xs) = [a..<a + length xs]"
proof (induction xs arbitrary: a)
  case Nil
  then show ?case by simp
next
  case (Cons x xs)
  have "[a..<a + length (x # xs)] = a # [a + 1..<a + 1 + length xs]"
    by (simp add: upt_rec)
  then show ?case using Cons [of "a + 1"] by simp
qed

lemma enumerate_from_bound:
  "\<forall>item \<in> set (enumerate_from 0 xs). fst item \<le> length xs"
proof
  fix item assume "item \<in> set (enumerate_from 0 xs)"
  then have "fst item \<in> set (map fst (enumerate_from 0 xs))" by simp
  then show "fst item \<le> length xs" by (simp add: enumerate_from_ids)
qed

lemma produced_ids:
  "map ts_id (produced s r items) = filter (\<lambda>i. \<not> int i < r) (map fst items)"
  by (induction items) (auto simp: produced_def make_segment_def Let_def)

lemma filter_from: "k \<le> n \<Longrightarrow> filter (\<lambda>i. \<not> int i < int k) [0..<n] = [k..<n]"
proof -
  assume "k \<le> n"
  then have "[0..<n] = [0..<k] @ [k..<n]"
    by (metis le_add_diff_inverse upt_add_eq_append zero_le)
  moreover have "filter (\<lambda>i. \<not> int i < int k) [0..<k] = []"
    by (simp add: filter_empty_conv)
  moreover have "filter (\<lambda>i. \<not> int i < int k) [k..<n] = [k..<n]"
    by (simp add: filter_id_conv)
  ultimately show ?thesis by simp
qed

lemma transcribe_file_segments:
  assumes "\<not> use_checkpoints s \<or> checkpoint_interval s \<noteq> 0"
    and "progress_bar s \<or> (wr_segments result \<noteq> [] \<and> rs_end (last (wr_segments result)) \<noteq> 0)"
  shows "\<exists>res d'. transcribe_file s result d = Inr (res, d')
     \<and> tr_segments res =
         fst (prepare s d)
         @ produced s (fst (snd (prepare s d))) (enumerate_from 0 (wr_segments result))"
proof -
  obtain resumed r batcher d1 where p: "prepare s d = (resumed, r, batcher, d1)"
    by (cases "prepare s d") auto
  have "progress_bar s \<or> total_duration (ls_tracker (initial_state s result batcher d1)) \<noteq> 0"
    using assms(2) by (auto simp: initial_state_def)
  from run_loop_returns [OF assms(1) this enumerate_from_bound, where r = r]
  obtain st where
    st: "run_loop s result r (enumerate_from 0 (wr_segments result))
           (initial_state s result batcher d1) = Inr st"
    by blast
  have segs: "ls_segments st = produced s r (enumerate_from 0 (wr_segments result))"
    using run_loop_segments [OF st] by (simp add: initial_state_def)
  have "transcribe_file s result d = Inr (finish s result resumed st)"
    by (simp add: transcribe_file_def p st)
  moreover have "tr_segments (fst (finish s result resumed st)) = resumed @ ls_segments st"
    by (simp add: finish_def Let_def)
  ultimately show ?thesis
    using segs p by (cases "finish s result resumed st") auto
qed

lemma transcribe_file_ids:
  assumes "\<not> use_checkpoints s \<or> checkpoint_interval s \<noteq> 0"
    and "progress_bar s \<or> (wr_segments result \<noteq> [] \<and> rs_end (last (wr_segments result)) \<noteq> 0)"
  shows "\<exists>res d'. transcribe_file s result d = Inr (res, d')
     \<and> map ts_id (tr_segments res) =
         map ts_id (fst (prepare s d))
         @ filter (\<lambda>i. \<not> int i < fst (snd (prepare s d))) [0..<length (wr_segments result)]"
proof -
  from transcribe_file_segments [OF assms, of d] obtain res d' where
    "transcribe_file s result d = Inr (res, d')"
    "tr_segments res =
         fst (prepare s d)
         @ produced s (fst (snd (prepare s d))) (enumerate_from 0 (wr_segments result))"
    by blast
  then show ?thesis
    using enumerate_from_ids [of 0 "wr_segments result"] by (simp add: produced_ids)
qed

text \<open>
  Without a bar, a transcript whose last segment ends at 0 makes the progress line of the
  second segment divide by zero.
\<close>

lemma silent_audio_raises:
  "transcribe_file first_run \<lparr>wr_language = py ''th'', wr_segments = [silence, silence]\<rparr> no_files
     = Inl ZeroDivisionError"
  by (simp add: transcribe_file_def prepare_def first_run_def no_files_def initial_state_def
      track_progress_def update_def save_if_due_def silence_def ls_tracker_record)

lemma record_buffering:
  assumes "buffering st" and "length (ls_segments st) < 99"
  shows "buffering (record_segment seg st)"
    and "checkpoint_json (ls_disk (record_segment seg st)) = checkpoint_json (ls_disk st)"
  using assms by (auto simp: buffering_def record_segment_def add_segment_def Let_def)

lemma checkpoint_buffering: "buffering st \<Longrightarrow> buffering (checkpoint_now s i seg st)"
  by (auto simp: buffering_def checkpoint_now_def)

lemma tracker_buffering: "buffering (st\<lparr>ls_tracker := t\<rparr>) = buffering st"
  by (simp add: buffering_def)

lemma loop_step_buffering:
  assumes "buffering st" and "length (ls_segments st) < 99"
    and "loop_step s res r item st = Inr st'"
  shows "buffering st' \<and> same_job (ls_checkpoint st) (ls_checkpoint st')"
proof (cases item)
  case (Pair i seg)
  let ?st2 = "record_segment (make_segment i seg (start_time_offset s)) st"
  have b2: "buffering ?st2"
    using record_buffering [OF assms(1,2)] by auto
  have c2: "ls_checkpoint ?st2 = ls_checkpoint st"
    by (rule ls_checkpoint_record)
  from assms(3) Pair have "loop_step s res r (i, seg) st = Inr st'" by simp
  from loop_step_cases [OF this] consider
    "st' = st"
    | t where "st' = ?st2\<lparr>ls_tracker := t\<rparr>"
    | t where "st' = checkpoint_now s i seg (?st2\<lparr>ls_tracker := t\<rparr>)"
    by blast
  then show ?thesis
  proof cases
    case 1
    then show ?thesis using assms(1) by (simp add: same_job_def)
  next
    case 2
    then show ?thesis using b2 c2 by (simp add: tracker_buffering same_job_def)
  next
    case 3
    have "buffering (?st2\<lparr>ls_tracker := t\<rparr>)" using b2 by (simp add: tracker_buffering)
    from checkpoint_buffering [OF this, of s i seg] 3 c2 show ?thesis
      by (simp add: same_job_def checkpoint_now_def)
  qed
qed

lemma loop_step_saves:
  assumes "use_checkpoints s" and "(int i + 1) mod checkpoint_interval s = 0"
    and "checkpoint_interval s \<noteq> 0" and "\<not> int i < r"
    and "loop_step s res r (i, seg) st = Inr st'"
  shows "checkpoint_json (ls_disk st')
      = Some ((ls_checkpoint st)\<lparr>last_segment_id := int i,
                                 last_timestamp := rs_end seg + start_time_offset s\<rparr>)"
proof -
  let ?st2 = "record_segment (make_segment i seg (start_time_offset s)) st"
  from assms(4,5) obtain st3 where
    t: "track_progress s res i seg ?st2 = Inr st3" and d: "save_if_due s i seg st3 = Inr st'"
    by (auto simp: and_then_def split: sum.splits)
  from track_progress_cases [OF t] obtain tr where st3: "st3 = ?st2\<lparr>ls_tracker := tr\<rparr>"
    by blast
  from d assms(1,2,3) have "st' = checkpoint_now s i seg st3"
    by (simp add: save_if_due_def)
  then show ?thesis
    by (simp add: st3 checkpoint_now_def ls_checkpoint_record)
qed

lemma same_job_trans: "same_job a b \<Longrightarrow> same_job b c \<Longrightarrow> same_job a c"
  by (simp add: same_job_def)

lemma run_loop_buffering:
  "buffering st \<Longrightarrow> length (ls_segments st) + length items < 100
   \<Longrightarrow> run_loop s res r items st = Inr st'
   \<Longrightarrow> buffering st' \<and> same_job (ls_checkpoint st) (ls_checkpoint st')"
proof (induction items arbitrary: st)
  case Nil
  then show ?case by (simp add: same_job_def)
next
  case (Cons item items)
  from Cons.prems(3) obtain st1 where
    s1: "loop_step s res r item st = Inr st1" and r1: "run_loop s res r items st1 = Inr st'"
    by (auto simp: and_then_def split: sum.splits)
  have short: "length (ls_segments st) < 99" using Cons.prems(2) by simp
  have b1: "buffering st1" and j1: "same_job (ls_checkpoint st) (ls_checkpoint st1)"
    using loop_step_buffering [OF Cons.prems(1) short s1] by auto
  have "length (ls_segments st1) \<le> length (ls_segments st) + 1"
    using loop_step_segments [OF s1] by (simp add: produced_def)
  then have "length (ls_segments st1) + length items < 100"
    using Cons.prems(2) by simp
  from Cons.IH [OF b1 this r1] j1 show ?case
    using same_job_trans by blast
qed

lemma take_enumerate_from: "take n (enumerate_from a xs) = enumerate_from a (take n xs)"
proof (induction xs arbitrary: a n)
  case Nil
  then show ?case by simp
next
  case (Cons x xs)
  then show ?case by (cases n) simp_all
qed

lemma enumerate_from_append:
  "enumerate_from a (xs @ ys) = enumerate_from a xs @ enumerate_from (a + length xs) ys"
  by (induction xs arbitrary: a) (simp_all add: add.assoc)

lemma prepare_first: "prepare first_run no_files = ([], 0, Some (new_batcher 100), no_files)"
  by (simp add: prepare_def first_run_def no_files_def)

lemma confirms_y: "confirms (py ''y'')"
  by (simp add: confirms_def py_strip_def is_space_def py_def ascii_lower_def)

lemma prepare_resumed:
  "prepare resumed_run after_kill = ([], 19, Some (new_batcher 100), after_kill)"
  using confirms_y
  by (simp add: prepare_def resumed_run_def first_run_def after_kill_def get_all_segments_def)

lemma whisper_25_duration:
  "wr_segments whisper_25 \<noteq> [] \<and> rs_end (last (wr_segments whisper_25)) \<noteq> 0"
  by (simp add: whisper_25_def one_second_def)

lemma killed_after_19: "interrupted_run first_run whisper_25 no_files 20 = Inr after_kill"
proof -
  let ?st0 = "initial_state first_run whisper_25 (Some (new_batcher 100)) no_files"
  let ?first = "enumerate_from 0 (replicate 19 one_second)"
  have "take 20 (replicate 25 one_second) = replicate 19 one_second @ [one_second]"
  proof -
    have "take 20 (replicate 25 one_second) = replicate (19 + 1) one_second" by simp
    also have "\<dots> = replicate 19 one_second @ [one_second]"
      by (simp only: replicate_add) simp
    finally show ?thesis .
  qed
  then have items: "take 20 (enumerate_from 0 (wr_segments whisper_25)) = ?first @ [(19, one_second)]"
    by (simp add: take_enumerate_from whisper_25_def enumerate_from_append)
  have cfg: "\<not> use_checkpoints first_run \<or> checkpoint_interval first_run \<noteq> 0"
    by (simp add: first_run_def)
  have dur0: "total_duration (ls_tracker ?st0) = 1"
    using whisper_25_duration by (simp add: initial_state_def whisper_25_def one_second_def)
  then have trk0: "progress_bar first_run \<or> total_duration (ls_tracker ?st0) \<noteq> 0" by simp
  have bound: "\<forall>item \<in> set ?first. fst item \<le> length (wr_segments whisper_25)"
    using enumerate_from_bound [of "replicate 19 one_second"] by (auto simp: whisper_25_def)
  from run_loop_returns [OF cfg trk0 bound, where r = 0] obtain st19 where
    st19: "run_loop first_run whisper_25 0 ?first ?st0 = Inr st19" by blast
  have trk19: "progress_bar first_run \<or> total_duration (ls_tracker st19) \<noteq> 0"
    using run_loop_tracker [OF st19] dur0 by simp
  have "fst (19 :: nat, one_second) \<le> length (wr_segments whisper_25)"
    by (simp add: whisper_25_def)
  from loop_step_returns [OF cfg trk19 this, where r = 0] obtain st20 where
    st20: "loop_step first_run whisper_25 0 (19, one_second) st19 = Inr st20" by blast
  have b0: "buffering ?st0"
    by (simp add: buffering_def initial_state_def new_batcher_def no_files_def)
  have len0: "length (ls_segments ?st0) + length ?first < 100"
    using enumerate_from_ids [of 0 "replicate 19 one_second", THEN arg_cong, of length]
    by (simp add: initial_state_def)
  have b19: "buffering st19" and j19: "same_job (ls_checkpoint ?st0) (ls_checkpoint st19)"
    using run_loop_buffering [OF b0 len0 st19] by auto
  have "length (ls_segments st19) \<le> length ?first"
    using run_loop_segments [OF st19] by (simp add: initial_state_def produced_def)
  then have len19: "length (ls_segments st19) < 99"
    using enumerate_from_ids [of 0 "replicate 19 one_second", THEN arg_cong, of length]
    by simp
  have "buffering st20"
    using loop_step_buffering [OF b19 len19 st20] by simp
  then have files: "batch_files (ls_disk st20) = []"
    by (auto simp: buffering_def)
  have saved: "checkpoint_json (ls_disk st20)
      = Some ((ls_checkpoint st19)\<lparr>last_segment_id := 19, last_timestamp := 1\<rparr>)"
  proof -
    have t: "rs_end one_second + start_time_offset first_run = 1"
      by (simp add: one_second_def first_run_def)
    have "use_checkpoints first_run" "(int 19 + 1) mod checkpoint_interval first_run = 0"
      "checkpoint_interval first_run \<noteq> 0" "\<not> int 19 < 0"
      by (simp_all add: first_run_def)
    from loop_step_saves [OF this st20] show ?thesis
      by (simp add: t)
  qed
  have data: "(ls_checkpoint st19)\<lparr>last_segment_id := 19, last_timestamp := 1\<rparr>
      = \<lparr>video_file = py ''ep-01.mp4'', video_hash = py ''0a1b2c3d'',
         checkpoint_model = py ''large-v3'', last_segment_id = 19, last_timestamp = 1,
         checkpoint_total_segments = 25\<rparr>"
    using j19
    by (cases "ls_checkpoint st19")
      (simp add: same_job_def initial_state_def first_run_def whisper_25_def)
  have disk: "ls_disk st20 = after_kill"
    using files saved data
    by (cases "ls_disk st20") (simp add: after_kill_def)
  have "run_loop first_run whisper_25 0 (take 20 (enumerate_from 0 (wr_segments whisper_25))) ?st0
      = Inr st20"
    unfolding items by (simp add: run_loop_append st19 st20 del: loop_step.simps)
  then show ?thesis
    by (simp add: interrupted_run_def prepare_first disk)
qed

text \<open>
  C1 on the code: 25 segments, a checkpoint every 10 segments, batches of 100. An
  uninterrupted run returns the segments 0 to 24. A run killed after the segment with
  index 19 leaves a checkpoint with \<^verbatim>\<open>last_segment_id\<close> 19 and no batch file, because
  the buffer of the batcher is only written every 100 segments. The resumed run loads no
  earlier segment, processes the indices from 19 on (index 19 again, since the loop skips
  only \<^verbatim>\<open>i < last_segment_id\<close>) and returns the segments 19 to 24.
\<close>

theorem resume_loses_segments:
  "(\<exists>res d. transcribe_file first_run whisper_25 no_files = Inr (res, d)
       \<and> map ts_id (tr_segments res) = [0..<25])
   \<and> interrupted_run first_run whisper_25 no_files 20 = Inr after_kill
   \<and> (\<exists>res d. transcribe_file resumed_run whisper_25 after_kill = Inr (res, d)
       \<and> map ts_id (tr_segments res) = [19..<25])"
proof -
  have cfg1: "\<not> use_checkpoints first_run \<or> checkpoint_interval first_run \<noteq> 0"
    by (simp add: first_run_def)
  have cfg2: "\<not> use_checkpoints resumed_run \<or> checkpoint_interval resumed_run \<noteq> 0"
    by (simp add: resumed_run_def first_run_def)
  have n: "length (wr_segments whisper_25) = 25"
    by (simp add: whisper_25_def)
  have trk1: "progress_bar first_run
      \<or> (wr_segments whisper_25 \<noteq> [] \<and> rs_end (last (wr_segments whisper_25)) \<noteq> 0)"
    using whisper_25_duration by simp
  have trk2: "progress_bar resumed_run
      \<or> (wr_segments whisper_25 \<noteq> [] \<and> rs_end (last (wr_segments whisper_25)) \<noteq> 0)"
    using whisper_25_duration by simp
  have all: "filter (\<lambda>i. \<not> int i < 0) [0..<25] = [0..<25]"
    by (simp add: filter_id_conv)
  have tail: "filter (\<lambda>i. \<not> int i < 19) [0..<25] = [19..<25]"
    using filter_from [of 19 25] by simp
  from transcribe_file_ids [OF cfg1 trk1, of no_files] obtain res1 d1 where
    t1: "transcribe_file first_run whisper_25 no_files = Inr (res1, d1)"
    and i1: "map ts_id (tr_segments res1) =
         map ts_id (fst (prepare first_run no_files))
         @ filter (\<lambda>i. \<not> int i < fst (snd (prepare first_run no_files)))
             [0..<length (wr_segments whisper_25)]"
    by blast
  from i1 have "map ts_id (tr_segments res1) = [] @ filter (\<lambda>i. \<not> int i < 0) [0..<25]"
    unfolding prepare_first n by (simp only: fst_conv snd_conv list.map)
  then have "map ts_id (tr_segments res1) = [0..<25]"
    unfolding all by (simp only: append_Nil)
  with t1 have first: "\<exists>res d. transcribe_file first_run whisper_25 no_files = Inr (res, d)
       \<and> map ts_id (tr_segments res) = [0..<25]"
    by blast
  from transcribe_file_ids [OF cfg2 trk2, of after_kill] obtain res2 d2 where
    t2: "transcribe_file resumed_run whisper_25 after_kill = Inr (res2, d2)"
    and i2: "map ts_id (tr_segments res2) =
         map ts_id (fst (prepare resumed_run after_kill))
         @ filter (\<lambda>i. \<not> int i < fst (snd (prepare resumed_run after_kill)))
             [0..<length (wr_segments whisper_25)]"
    by blast
  from i2 have "map ts_id (tr_segments res2) = [] @ filter (\<lambda>i. \<not> int i < 19) [0..<25]"
    unfolding prepare_resumed n by (simp only: fst_conv snd_conv list.map)
  then have "map ts_id (tr_segments res2) = [19..<25]"
    unfolding tail by (simp only: append_Nil)
  with t2 have second: "\<exists>res d. transcribe_file resumed_run whisper_25 after_kill = Inr (res, d)
       \<and> map ts_id (tr_segments res) = [19..<25]"
    by blast
  show ?thesis using first second killed_after_19 by blast
qed

end
